theory Spec2Isabelle
  imports Complex_Main "HOL-Library.Multiset" "HOL-Library.Sublist"
begin

section \<open>DocumentCache: the time-bounded cache (MedTechONE\_AI\_Expert.py, lines 186-202)\<close>

text \<open>
  \<^verbatim>\<open>CACHE_TTL = 3600\<close> (line 31).  The class keeps a dictionary from keys to
  pairs \<open>(timestamp, value)\<close> and a time-to-live.  \<^verbatim>\<open>time.time()\<close> is read
  from the environment; here the clock reading is an argument of \<open>get\<close> and \<open>set\<close>.
  Clock readings are modelled as real numbers.
\<close>

definition CACHE_TTL :: real where
  "CACHE_TTL = 3600"

record DocumentCache =
  cache :: "string \<rightharpoonup> (real \<times> string)"
  ttl :: real

definition DocumentCache_init :: "real \<Rightarrow> DocumentCache" where
  "DocumentCache_init t = \<lparr>cache = Map.empty, ttl = t\<rparr>"

definition document_cache :: DocumentCache where
  "document_cache = DocumentCache_init CACHE_TTL"

text \<open>
  \<open>get\<close> returns the looked-up value together with the cache as the call leaves it
  (the expired entry is deleted, line 196).
\<close>

definition DocumentCache_get :: "real \<Rightarrow> string \<Rightarrow> DocumentCache \<Rightarrow> string option \<times> DocumentCache" where
  "DocumentCache_get now key c =
     (case cache c key of
        Some (timestamp, v) \<Rightarrow>
          if now - timestamp < ttl c then (Some v, c)
          else (None, c\<lparr>cache := (cache c)(key := None)\<rparr>)
      | None \<Rightarrow> (None, c))"

definition DocumentCache_set :: "real \<Rightarrow> string \<Rightarrow> string \<Rightarrow> DocumentCache \<Rightarrow> DocumentCache" where
  "DocumentCache_set now key v c = c\<lparr>cache := (cache c)(key \<mapsto> (now, v))\<rparr>"

section \<open>Strings\<close>

text \<open>
  Python strings are modelled as lists of characters with code points below 256.
  \<^verbatim>\<open>str.lower()\<close> on that range maps \<open>A\<close>..\<open>Z\<close> and the Latin-1 capitals
  (192..222 except the multiplication sign 215) to the letter 32 places up;
  \<^verbatim>\<open>str.split()\<close> without arguments cuts at runs of whitespace and yields no
  empty token; \<^verbatim>\<open>a in b\<close> on strings is the contiguous-substring test
  (\<^const>\<open>sublist\<close>).
\<close>

definition lower_char :: "char \<Rightarrow> char" where
  "lower_char c =
     (let n = (of_char c :: nat) in
      if (65 \<le> n \<and> n \<le> 90) \<or> (192 \<le> n \<and> n \<le> 222 \<and> n \<noteq> 215)
      then char_of (n + 32) else c)"

definition lower :: "string \<Rightarrow> string" where
  "lower s = map lower_char s"

definition isspace :: "char \<Rightarrow> bool" where
  "isspace c = ((of_char c :: nat) \<in> {9, 10, 11, 12, 13, 28, 29, 30, 31, 32, 133, 160})"

fun split_from :: "string \<Rightarrow> string \<Rightarrow> string list" where
  "split_from cur [] = (if cur = [] then [] else [cur])"
| "split_from cur (c # cs) =
     (if isspace c then (if cur = [] then split_from [] cs else cur # split_from [] cs)
      else split_from (cur @ [c]) cs)"

definition split :: "string \<Rightarrow> string list" where
  "split s = split_from [] s"

section \<open>Sorting with \<^verbatim>\<open>list.sort(key=..., reverse=True)\<close>\<close>

text \<open>
  Python's sort is stable, and with \<^verbatim>\<open>reverse=True\<close> elements with equal keys
  keep their original order.  That is insertion sort on the negated key.
\<close>

definition sort_reverse :: "('a \<Rightarrow> 'k::linordered_idom) \<Rightarrow> 'a list \<Rightarrow> 'a list" where
  "sort_reverse key xs = sort_key (\<lambda>x. - key x) xs"

section \<open>list\_airtable\_resources: filtering and ranking (lines 289-327)\<close>

text \<open>
  The \<^verbatim>\<open>fields\<close> dictionary (\<open>flds\<close> below) of one Airtable record; \<open>None\<close> is a key that is
  not there.  The text flds hold strings and the relevance score holds an integer.
\<close>

record airtable_fields =
  Title :: "string option"
  Description :: "string option"
  Topics :: "string option"
  Theme :: "string option"
  Author :: "string option"
  Link_to_Resource :: "string option"
  Type_of_Resource :: "string option"
  Access_Type :: "string option"
  ECR_Relevance_Score :: "int option"
  Development_Stage :: "string option"
  Estimated_Time :: "string option"
  Complexity_Level :: "string option"
  Prerequisites :: "string list option"
  Key_Learnings :: "string list option"
  Common_Pitfalls :: "string list option"

record ecr_metadata =
  relevance_score :: int
  development_stage :: string
  estimated_time :: string
  complexity_level :: string
  prerequisites :: "string list"
  key_learnings :: "string list"
  common_pitfalls :: "string list"

record resource =
  r_title :: string
  r_author :: string
  r_description :: string
  r_link :: string
  r_type :: string
  r_access_type :: string
  r_ecr_metadata :: ecr_metadata

text \<open>\<^verbatim>\<open>d.get(k, default)\<close> on a key that is there or not.\<close>

definition get_or :: "'a \<Rightarrow> 'a option \<Rightarrow> 'a" where
  "get_or d v = (case v of None \<Rightarrow> d | Some x \<Rightarrow> x)"

text \<open>
  Lines 293-300: the record is skipped (\<^verbatim>\<open>continue\<close>) exactly when
  \<open>skipped\<close> holds.  \<^verbatim>\<open>if filter_value:\<close> is false for \<^verbatim>\<open>None\<close> and for
  the empty string.
\<close>

definition skipped :: "string option \<Rightarrow> airtable_fields \<Rightarrow> bool" where
  "skipped filter_value flds =
     (case filter_value of
        None \<Rightarrow> False
      | Some fv \<Rightarrow>
          if fv = [] then False
          else
            (let filter_val = lower fv;
                 title_val = lower (get_or [] (Title flds));
                 desc_val = lower (get_or [] (Description flds));
                 topics_val = lower (get_or [] (Topics flds));
                 theme_val = lower (get_or [] (Theme flds))
             in \<not> (sublist filter_val title_val \<or> sublist filter_val desc_val \<or>
                    sublist filter_val topics_val \<or> sublist filter_val theme_val)))"

definition format_resource :: "airtable_fields \<Rightarrow> resource" where
  "format_resource flds =
     \<lparr>r_title = get_or ''Untitled'' (Title flds),
      r_author = get_or ''Unknown'' (Author flds),
      r_description = get_or ''No description available'' (Description flds),
      r_link = get_or [] (Link_to_Resource flds),
      r_type = get_or ''Unknown'' (Type_of_Resource flds),
      r_access_type = get_or ''Unknown'' (Access_Type flds),
      r_ecr_metadata =
        \<lparr>relevance_score = get_or 3 (ECR_Relevance_Score flds),
         development_stage = get_or ''all'' (Development_Stage flds),
         estimated_time = get_or ''unknown'' (Estimated_Time flds),
         complexity_level = get_or ''medium'' (Complexity_Level flds),
         prerequisites = get_or [] (Prerequisites flds),
         key_learnings = get_or [] (Key_Learnings flds),
         common_pitfalls = get_or [] (Common_Pitfalls flds)\<rparr>\<rparr>"

text \<open>The loop of lines 289-324: \<open>formatted_resources\<close> before the sort.\<close>

fun collect_resources :: "string option \<Rightarrow> airtable_fields list \<Rightarrow> resource list" where
  "collect_resources filter_value [] = []"
| "collect_resources filter_value (flds # records) =
     (if skipped filter_value flds then collect_resources filter_value records
      else format_resource flds # collect_resources filter_value records)"

text \<open>Line 327: \<open>formatted_resources\<close> after the sort, the order in which they are printed.\<close>

definition ranked_resources :: "string option \<Rightarrow> airtable_fields list \<Rightarrow> resource list" where
  "ranked_resources filter_value records =
     sort_reverse (\<lambda>x. relevance_score (r_ecr_metadata x)) (collect_resources filter_value records)"

text \<open>
  The filter in the words of the specification: the lowercased filter value is a
  substring of the lowercased title, description, topics or theme; a field that is not
  there counts as the empty string.
\<close>

definition matches_filter :: "string \<Rightarrow> airtable_fields \<Rightarrow> bool" where
  "matches_filter fv flds =
     (\<exists>f \<in> {Title flds, Description flds, Topics flds, Theme flds}.
        sublist (lower fv) (lower (get_or [] f)))"

definition no_fields :: airtable_fields where
  "no_fields = \<lparr>Title = None, Description = None, Topics = None, Theme = None,
     Author = None, Link_to_Resource = None, Type_of_Resource = None, Access_Type = None,
     ECR_Relevance_Score = None, Development_Stage = None, Estimated_Time = None,
     Complexity_Level = None, Prerequisites = None, Key_Learnings = None,
     Common_Pitfalls = None\<rparr>"

definition catalog_example :: "airtable_fields list" where
  "catalog_example =
     [no_fields\<lparr>Title := Some ''Study design'', Description := Some ''A usability study''\<rparr>,
      no_fields\<lparr>Title := Some ''Alpha'', Theme := Some ''Usability'',
        ECR_Relevance_Score := Some 5\<rparr>,
      no_fields\<lparr>Title := Some ''Funding'', ECR_Relevance_Score := Some 4\<rparr>,
      no_fields\<lparr>Title := Some ''Beta'', Topics := Some ''USABILITY'',
        ECR_Relevance_Score := Some 5\<rparr>]"

section \<open>External services and the state of a run\<close>

text \<open>
  A key of a dictionary received from a service is not there, holds JSON null, or
  holds a value.
\<close>

datatype 'a field = Missing | Null | Val 'a

text \<open>\<^verbatim>\<open>d.get(k)\<close>: \<^verbatim>\<open>None\<close> when the key is not there.\<close>

fun get :: "'a field \<Rightarrow> 'a option" where
  "get Missing = None"
| "get Null = None"
| "get (Val v) = Some v"

text \<open>\<^verbatim>\<open>d.get(k, default)\<close>: the default only when the key is not there.\<close>

fun get_default :: "'a \<Rightarrow> 'a field \<Rightarrow> 'a option" where
  "get_default d Missing = Some d"
| "get_default d Null = None"
| "get_default d (Val v) = Some v"

text \<open>
  The exceptions of a run.  \<open>BackendError\<close> stands for whatever a client library
  raises that derives from \<^verbatim>\<open>Exception\<close>; \<^verbatim>\<open>RuntimeError\<close>,
  \<^verbatim>\<open>TypeError\<close> and \<^verbatim>\<open>KeyError\<close> are raised by the interpreter in the
  code below and derive from \<^verbatim>\<open>Exception\<close> too.
  \<^verbatim>\<open>asyncio.CancelledError\<close> and \<^verbatim>\<open>KeyboardInterrupt\<close> derive from
  \<^verbatim>\<open>BaseException\<close> only, so a handler \<^verbatim>\<open>except Exception\<close> does not
  catch them.
\<close>

datatype exn =
  BackendError | RuntimeError | TypeError | KeyError | CancelledError | KeyboardInterrupt

fun is_Exception :: "exn \<Rightarrow> bool" where
  "is_Exception BackendError = True"
| "is_Exception RuntimeError = True"
| "is_Exception TypeError = True"
| "is_Exception KeyError = True"
| "is_Exception CancelledError = False"
| "is_Exception KeyboardInterrupt = False"

text \<open>\<^verbatim>\<open>d[k]\<close>: raises \<^verbatim>\<open>KeyError\<close> when the key is not there.\<close>

fun subscript :: "'a field \<Rightarrow> exn + 'a option" where
  "subscript Missing = Inl KeyError"
| "subscript Null = Inr None"
| "subscript (Val v) = Inr (Some v)"

text \<open>A row of \<^verbatim>\<open>pdf_documents\<close> and a row of \<^verbatim>\<open>site_pages\<close>, as returned.\<close>

record pdf_doc =
  pdf_id :: "int field"
  pdf_title :: "string field"
  pdf_content :: "string field"
  pdf_associated_url :: "string field"
  pdf_ecr_metadata :: "(string \<times> string) list field"
  pdf_similarity :: "rat field"

record web_doc =
  web_id :: "int field"
  web_title :: "string field"
  web_content :: "string field"
  web_url :: "string field"
  web_similarity :: "rat field"

datatype column = content | title

text \<open>
  The outbound calls, with the arguments the code passes: the embedding request
  (input text, dimensions), \<^verbatim>\<open>rpc('match_pdf_documents')\<close> (embedding, threshold,
  count), the \<^verbatim>\<open>ilike\<close> query on \<^verbatim>\<open>pdf_documents\<close> (column, pattern,
  limit) and \<^verbatim>\<open>rpc('match_site_pages')\<close> (embedding, count).
\<close>

datatype call =
    Embeddings_create string nat
  | Match_pdf_documents "rat list" rat nat
  | Ilike_pdf_documents column string nat
  | Match_site_pages "rat list" nat

text \<open>
  The services are parameters.  Each answers a call, knowing the calls made so far, with
  an exception or with its data; \<^verbatim>\<open>.data\<close> of a Supabase response may be
  \<^verbatim>\<open>None\<close>.
\<close>

record backend =
  embeddings_create :: "call list \<Rightarrow> string \<Rightarrow> exn + rat list"
  match_pdf_documents :: "call list \<Rightarrow> rat list \<Rightarrow> exn + pdf_doc list option"
  ilike_pdf_documents :: "call list \<Rightarrow> column \<Rightarrow> string \<Rightarrow> exn + pdf_doc list option"
  match_site_pages :: "call list \<Rightarrow> rat list \<Rightarrow> exn + web_doc list option"

text \<open>
  The state of the process: the keys held by the \<^verbatim>\<open>lru_cache\<close> of
  \<open>get_embedding\<close>, most recently used first, and the log of outbound calls.
\<close>

record state =
  lru :: "(string \<times> nat) list"
  trace :: "call list"

definition initial :: state where
  "initial = \<lparr>lru = [], trace = []\<rparr>"

section \<open>get\_embedding (lines 172-184)\<close>

definition EMBEDDING_CACHE_SIZE :: nat where
  "EMBEDDING_CACHE_SIZE = 1000"

text \<open>
  Lines 175-184, the body of the coroutine: one request; the embedding of the response,
  or 1536 zeros when the request raises something that \<^verbatim>\<open>except Exception\<close>
  (line 182) catches; any other exception leaves the function.
\<close>

definition get_embedding_body :: "backend \<Rightarrow> string \<Rightarrow> state \<Rightarrow> (exn + rat list) \<times> state" where
  "get_embedding_body b text s =
     (case embeddings_create b (trace s) text of
        Inr embedding \<Rightarrow> Inr embedding
      | Inl e \<Rightarrow> if is_Exception e then Inr (replicate 1536 0) else Inl e,
      s\<lparr>trace := trace s @ [Embeddings_create text 1536]\<rparr>)"

text \<open>
  \<^verbatim>\<open>await get_embedding(text, openai_client)\<close>.  The decorator
  \<^verbatim>\<open>lru_cache\<close> wraps an \<^verbatim>\<open>async def\<close>: calling the wrapped function runs
  nothing and returns a coroutine object, and that object is what the cache stores under
  the key \<open>(text, openai_client)\<close>.  On a miss the new coroutine is stored (the least
  recently used key is dropped when the cache is full) and awaited, which runs the body.
  On a hit the stored coroutine is returned; it was awaited when it was created, and
  awaiting a coroutine a second time raises \<^verbatim>\<open>RuntimeError\<close>.  The client handle
  is identified by a number.
\<close>

definition get_embedding :: "backend \<Rightarrow> string \<Rightarrow> nat \<Rightarrow> state \<Rightarrow> (exn + rat list) \<times> state" where
  "get_embedding b text openai_client s =
     (let key = (text, openai_client) in
      if key \<in> set (lru s)
      then (Inl RuntimeError, s\<lparr>lru := key # removeAll key (lru s)\<rparr>)
      else get_embedding_body b text (s\<lparr>lru := take EMBEDDING_CACHE_SIZE (key # lru s)\<rparr>))"

text \<open>A run of calls of \<open>get_embedding\<close> with one client, the results dropped.\<close>

fun get_embeddings :: "backend \<Rightarrow> string list \<Rightarrow> nat \<Rightarrow> state \<Rightarrow> state" where
  "get_embeddings b [] openai_client s = s"
| "get_embeddings b (text # texts) openai_client s =
     get_embeddings b texts openai_client (snd (get_embedding b text openai_client s))"

definition embedding_requests :: "call list \<Rightarrow> call list" where
  "embedding_requests t = filter (\<lambda>c. case c of Embeddings_create x n \<Rightarrow> True | _ \<Rightarrow> False) t"

section \<open>retrieve\_relevant\_content\_unified (lines 358-457)\<close>

text \<open>An entry of \<open>results\<close>; web entries have no \<^verbatim>\<open>ecr_metadata\<close> key.\<close>

datatype store = pdf | web

record passage =
  p_type :: store
  p_title :: "string option"
  p_content :: "string option"
  p_url :: "string option"
  p_ecr_metadata :: "(string \<times> string) list field"
  p_similarity :: "rat option"

text \<open>Line 370.\<close>

definition keywords_of :: "string \<Rightarrow> string list" where
  "keywords_of user_query =
     [lower user_query] @ split (lower user_query) @
     [''class'', ''classification'', ''device'', ''medical'']"

text \<open>\<^verbatim>\<open>x or []\<close> on the data of a response.\<close>

fun or_empty :: "'a list option \<Rightarrow> 'a list" where
  "or_empty None = []"
| "or_empty (Some xs) = xs"

text \<open>
  The iteration of lines 381-385, 405-409 and 411-415 over the rows of one response; the
  accumulator is \<open>(seen_ids, hybrid_pdf_results)\<close>.
\<close>

fun add_unique :: "pdf_doc list \<Rightarrow> int option set \<times> pdf_doc list \<Rightarrow> int option set \<times> pdf_doc list" where
  "add_unique [] acc = acc"
| "add_unique (doc # docs) (seen_ids, hybrid_pdf_results) =
     (let doc_id = get (pdf_id doc) in
      if doc_id \<notin> seen_ids
      then add_unique docs (insert doc_id seen_ids, hybrid_pdf_results @ [doc])
      else add_unique docs (seen_ids, hybrid_pdf_results))"

text \<open>The three kinds of store call; each is logged, whatever its outcome.\<close>

definition rpc_match_pdf_documents :: "backend \<Rightarrow> rat list \<Rightarrow> state \<Rightarrow> (exn + pdf_doc list option) \<times> state" where
  "rpc_match_pdf_documents b query_embedding s =
     (match_pdf_documents b (trace s) query_embedding,
      s\<lparr>trace := trace s @ [Match_pdf_documents query_embedding 0 10]\<rparr>)"

text \<open>The pattern \<^verbatim>\<open>f'%{kw}%'\<close>.\<close>

definition like_pattern :: "string \<Rightarrow> string" where
  "like_pattern kw = ''%'' @ kw @ ''%''"

definition ilike :: "backend \<Rightarrow> column \<Rightarrow> string \<Rightarrow> state \<Rightarrow> (exn + pdf_doc list option) \<times> state" where
  "ilike b col kw s =
     (ilike_pdf_documents b (trace s) col (like_pattern kw),
      s\<lparr>trace := trace s @ [Ilike_pdf_documents col (like_pattern kw) 10]\<rparr>)"

definition rpc_match_site_pages :: "backend \<Rightarrow> rat list \<Rightarrow> state \<Rightarrow> (exn + web_doc list option) \<times> state" where
  "rpc_match_site_pages b query_embedding s =
     (match_site_pages b (trace s) query_embedding,
      s\<lparr>trace := trace s @ [Match_site_pages query_embedding 10]\<rparr>)"

text \<open>The loop of lines 389-415 over the keywords; an exception leaves the loop.\<close>

fun keyword_search ::
  "backend \<Rightarrow> string list \<Rightarrow> int option set \<times> pdf_doc list \<Rightarrow> state \<Rightarrow>
   (exn + int option set \<times> pdf_doc list) \<times> state" where
  "keyword_search b [] acc s = (Inr acc, s)"
| "keyword_search b (kw # kws) acc s =
     (case ilike b content kw s of
        (Inl e, s1) \<Rightarrow> (Inl e, s1)
      | (Inr keyword_result_content, s1) \<Rightarrow>
          (case ilike b title kw s1 of
             (Inl e, s2) \<Rightarrow> (Inl e, s2)
           | (Inr keyword_result_title, s2) \<Rightarrow>
               keyword_search b kws
                 (add_unique (or_empty keyword_result_title)
                    (add_unique (or_empty keyword_result_content) acc)) s2))"

text \<open>Lines 371-415: \<open>hybrid_pdf_results\<close> as the PDF stage leaves it.\<close>

definition pdf_stage :: "backend \<Rightarrow> rat list \<Rightarrow> string list \<Rightarrow> state \<Rightarrow> (exn + pdf_doc list) \<times> state" where
  "pdf_stage b query_embedding keywords s =
     (case rpc_match_pdf_documents b query_embedding s of
        (Inl e, s1) \<Rightarrow> (Inl e, s1)
      | (Inr pdf_results, s1) \<Rightarrow>
          (let acc = add_unique (or_empty pdf_results) ({}, []) in
           if snd acc = []
           then (case keyword_search b keywords acc s1 of
                   (Inl e, s2) \<Rightarrow> (Inl e, s2)
                 | (Inr acc', s2) \<Rightarrow> (Inr (snd acc'), s2))
           else (Inr (snd acc), s1)))"

text \<open>Lines 428-435 and 439-445.\<close>

definition format_pdf :: "pdf_doc \<Rightarrow> passage" where
  "format_pdf doc =
     \<lparr>p_type = pdf,
      p_title = get_default [] (pdf_title doc),
      p_content = get_default [] (pdf_content doc),
      p_url = get_default [] (pdf_associated_url doc),
      p_ecr_metadata =
        (case pdf_ecr_metadata doc of Missing \<Rightarrow> Val [] | Null \<Rightarrow> Null | Val m \<Rightarrow> Val m),
      p_similarity = get (pdf_similarity doc)\<rparr>"

definition format_web :: "web_doc \<Rightarrow> exn + passage" where
  "format_web doc =
     (case subscript (web_title doc) of
        Inl e \<Rightarrow> Inl e
      | Inr t \<Rightarrow>
     (case subscript (web_content doc) of
        Inl e \<Rightarrow> Inl e
      | Inr c \<Rightarrow>
     (case subscript (web_url doc) of
        Inl e \<Rightarrow> Inl e
      | Inr u \<Rightarrow>
     (case subscript (web_similarity doc) of
        Inl e \<Rightarrow> Inl e
      | Inr sim \<Rightarrow>
          Inr \<lparr>p_type = web, p_title = t, p_content = c, p_url = u,
               p_ecr_metadata = Missing, p_similarity = sim\<rparr>))))"

fun format_web_all :: "web_doc list \<Rightarrow> exn + passage list" where
  "format_web_all [] = Inr []"
| "format_web_all (doc # docs) =
     (case format_web doc of
        Inl e \<Rightarrow> Inl e
      | Inr r \<Rightarrow> (case format_web_all docs of Inl e \<Rightarrow> Inl e | Inr rs \<Rightarrow> Inr (r # rs)))"

text \<open>Line 448: the sort key \<^verbatim>\<open>x.get('similarity', 0) or 0\<close>.\<close>

definition similarity_key :: "passage \<Rightarrow> rat" where
  "similarity_key x = (case p_similarity x of None \<Rightarrow> 0 | Some sim \<Rightarrow> sim)"

text \<open>
  Lines 365-445: \<open>results\<close> before the sort, or the exception that leaves the
  \<^verbatim>\<open>try\<close> block.  Iterating over \<^verbatim>\<open>web_results.data\<close> raises
  \<^verbatim>\<open>TypeError\<close> when it is \<^verbatim>\<open>None\<close>.
\<close>

definition merged_results :: "backend \<Rightarrow> nat \<Rightarrow> string \<Rightarrow> state \<Rightarrow> (exn + passage list) \<times> state" where
  "merged_results b openai_client user_query s =
     (case get_embedding b user_query openai_client s of
        (Inl e, s1) \<Rightarrow> (Inl e, s1)
      | (Inr query_embedding, s1) \<Rightarrow>
     (case pdf_stage b query_embedding (keywords_of user_query) s1 of
        (Inl e, s2) \<Rightarrow> (Inl e, s2)
      | (Inr hybrid_pdf_results, s2) \<Rightarrow>
     (case rpc_match_site_pages b query_embedding s2 of
        (Inl e, s3) \<Rightarrow> (Inl e, s3)
      | (Inr None, s3) \<Rightarrow> (Inl TypeError, s3)
      | (Inr (Some web_data), s3) \<Rightarrow>
          (case format_web_all web_data of
             Inl e \<Rightarrow> (Inl e, s3)
           | Inr web_passages \<Rightarrow>
               (Inr (map format_pdf hybrid_pdf_results @ web_passages), s3)))))"

text \<open>The \<^verbatim>\<open>try\<close> block, lines 365-453, with the sort of line 448.\<close>

definition search_try :: "backend \<Rightarrow> nat \<Rightarrow> string \<Rightarrow> state \<Rightarrow> (exn + passage list) \<times> state" where
  "search_try b openai_client user_query s =
     (case merged_results b openai_client user_query s of
        (Inl e, s') \<Rightarrow> (Inl e, s')
      | (Inr results, s') \<Rightarrow> (Inr (sort_reverse similarity_key results), s'))"

text \<open>
  How a call of the tool ends: it returns \<^verbatim>\<open>json.dumps(results, indent=2)\<close> of
  a non-empty list, it returns the empty string (for an empty list, line 453, and for an
  exception that the handler catches, line 457), or an exception leaves it.
\<close>

datatype outcome = Json_dumps "passage list" | Empty_string | Raises exn

text \<open>Lines 455-457: \<^verbatim>\<open>except Exception as e: ... return ""\<close>.\<close>

definition except_Exception :: "exn \<Rightarrow> outcome" where
  "except_Exception e = (if is_Exception e then Empty_string else Raises e)"

definition retrieve_relevant_content_unified :: "backend \<Rightarrow> nat \<Rightarrow> string \<Rightarrow> state \<Rightarrow> outcome \<times> state" where
  "retrieve_relevant_content_unified b openai_client user_query s =
     (case search_try b openai_client user_query s of
        (Inl e, s') \<Rightarrow> (except_Exception e, s')
      | (Inr results, s') \<Rightarrow> (if results \<noteq> [] then Json_dumps results else Empty_string, s'))"

text \<open>The passages a call returns; none when it does not return a dump.\<close>

fun passages :: "outcome \<Rightarrow> passage list" where
  "passages (Json_dumps results) = results"
| "passages Empty_string = []"
| "passages (Raises e) = []"

definition substring_searches :: "call list \<Rightarrow> call list" where
  "substring_searches t = filter (\<lambda>c. case c of Ilike_pdf_documents col pat n \<Rightarrow> True | _ \<Rightarrow> False) t"

definition web_searches :: "call list \<Rightarrow> call list" where
  "web_searches t = filter (\<lambda>c. case c of Match_site_pages e n \<Rightarrow> True | _ \<Rightarrow> False) t"

section \<open>Rows received by the PDF stage, and example services\<close>

text \<open>
  The rows a response carries (none when the call raised), the rows the keyword loop
  receives in the order of its queries, and the rows the whole PDF stage receives: those
  of the vector search, or those of the keyword loop when the vector search gave none.
\<close>

fun rows :: "exn + 'a list option \<Rightarrow> 'a list" where
  "rows (Inl e) = []"
| "rows (Inr d) = or_empty d"

fun keyword_rows :: "backend \<Rightarrow> string list \<Rightarrow> state \<Rightarrow> pdf_doc list" where
  "keyword_rows b [] s = []"
| "keyword_rows b (kw # kws) s =
     (let (r1, s1) = ilike b content kw s; (r2, s2) = ilike b title kw s1
      in rows r1 @ rows r2 @ keyword_rows b kws s2)"

definition pdf_rows :: "backend \<Rightarrow> rat list \<Rightarrow> string list \<Rightarrow> state \<Rightarrow> pdf_doc list" where
  "pdf_rows b query_embedding keywords s =
     (let (r, s1) = rpc_match_pdf_documents b query_embedding s
      in if rows r = [] then keyword_rows b keywords s1 else rows r)"

text \<open>The substring queries of a complete keyword loop: content, then title, per keyword.\<close>

definition keyword_calls :: "string list \<Rightarrow> call list" where
  "keyword_calls kws =
     concat (map (\<lambda>kw. [Ilike_pdf_documents content (like_pattern kw) 10,
                         Ilike_pdf_documents title (like_pattern kw) 10]) kws)"

text \<open>
  Example services, which answer every call of a kind in the same way, and example rows.
\<close>

definition mock_backend ::
  "(exn + rat list) \<Rightarrow> (exn + pdf_doc list option) \<Rightarrow> (column \<Rightarrow> exn + pdf_doc list option) \<Rightarrow>
   (exn + web_doc list option) \<Rightarrow> backend" where
  "mock_backend emb pdf_hits kw_hits web_hits =
     \<lparr>embeddings_create = (\<lambda>h text. emb),
      match_pdf_documents = (\<lambda>h e. pdf_hits),
      ilike_pdf_documents = (\<lambda>h col pat. kw_hits col),
      match_site_pages = (\<lambda>h e. web_hits)\<rparr>"

definition pdf_row :: "int \<Rightarrow> string \<Rightarrow> rat field \<Rightarrow> pdf_doc" where
  "pdf_row i t sim =
     \<lparr>pdf_id = Val i, pdf_title = Val t, pdf_content = Val ''text'',
      pdf_associated_url = Missing, pdf_ecr_metadata = Missing, pdf_similarity = sim\<rparr>"

definition web_row :: "int \<Rightarrow> string \<Rightarrow> rat field \<Rightarrow> web_doc" where
  "web_row i t sim =
     \<lparr>web_id = Val i, web_title = Val t, web_content = Val ''text'',
      web_url = Val ''https://medtechone-learning.com/'', web_similarity = sim\<rparr>"

definition zero_backend :: backend where
  "zero_backend = mock_backend (Inr [1/2, 1/4]) (Inr (Some [])) (\<lambda>col. Inr (Some [])) (Inr (Some []))"

definition fallback_backend :: backend where
  "fallback_backend =
     mock_backend (Inr [1/2, 1/4]) (Inr (Some []))
       (\<lambda>col. case col of
                 content \<Rightarrow> Inr (Some [pdf_row 5 ''Device classes'' Missing])
               | title \<Rightarrow> Inr (Some [pdf_row 5 ''Device classes'' Missing,
                                      pdf_row 6 ''Classification rules'' Missing]))
       (Inr (Some []))"

definition substring_down_backend :: backend where
  "substring_down_backend =
     mock_backend (Inr [1/2, 1/4]) (Inr (Some [])) (\<lambda>col. Inl BackendError)
       (Inr (Some [web_row 1 ''Usability'' (Val (19/20))]))"

definition ranking_backend :: backend where
  "ranking_backend =
     mock_backend (Inr [1/2, 1/4])
       (Inr (Some [pdf_row 1 ''Risk classes'' (Val (9/10)), pdf_row 2 ''Guidance'' Missing]))
       (\<lambda>col. Inr (Some [pdf_row 3 ''Not asked for'' Missing]))
       (Inr (Some [web_row 1 ''Usability'' (Val (19/20))]))"

definition pdf_down_backend :: backend where
  "pdf_down_backend =
     mock_backend (Inr [1/2, 1/4]) (Inl BackendError) (\<lambda>col. Inr (Some []))
       (Inr (Some [web_row 1 ''Usability'' (Val (19/20))]))"

definition web_down_backend :: backend where
  "web_down_backend =
     mock_backend (Inr [1/2, 1/4]) (Inr (Some [pdf_row 1 ''Risk classes'' (Val (9/10))]))
       (\<lambda>col. Inr (Some [])) (Inl BackendError)"

definition same_id_backend :: backend where
  "same_id_backend =
     mock_backend (Inr [1/2, 1/4]) (Inr (Some [pdf_row 7 ''Risk classes'' (Val (9/10))]))
       (\<lambda>col. Inr (Some [])) (Inr (Some [web_row 7 ''Usability'' (Val (19/20))]))"

definition tie_backend :: backend where
  "tie_backend =
     mock_backend (Inr [1/2, 1/4])
       (Inr (Some [pdf_row 1 ''P1'' (Val (1/2)), pdf_row 2 ''P2'' Missing,
                   pdf_row 1 ''P1 again'' (Val (1/2))]))
       (\<lambda>col. Inr (Some []))
       (Inr (Some [web_row 1 ''W1'' (Val (1/2)), web_row 2 ''W2'' Null]))"

text \<open>The three passages of the ranking example: a PDF vector hit, a PDF keyword hit, a web hit.\<close>

definition three_passages :: "passage list" where
  "three_passages =
     [\<lparr>p_type = pdf, p_title = Some ''vector hit'', p_content = Some [], p_url = Some [],
       p_ecr_metadata = Val [], p_similarity = Some (9/10)\<rparr>,
      \<lparr>p_type = pdf, p_title = Some ''keyword hit'', p_content = Some [], p_url = Some [],
       p_ecr_metadata = Val [], p_similarity = None\<rparr>,
      \<lparr>p_type = web, p_title = Some ''page'', p_content = Some [], p_url = Some [],
       p_ecr_metadata = Missing, p_similarity = Some (19/20)\<rparr>]"

text \<open>
  The answer of the PDF store to a substring query of the log, given the calls made
  before it.
\<close>

fun ilike_answer :: "backend \<Rightarrow> call list \<Rightarrow> call \<Rightarrow> exn + pdf_doc list option" where
  "ilike_answer b h (Ilike_pdf_documents col pat n) = ilike_pdf_documents b h col pat"
| "ilike_answer b h (Embeddings_create t n) = Inr None"
| "ilike_answer b h (Match_pdf_documents e r n) = Inr None"
| "ilike_answer b h (Match_site_pages e n) = Inr None"

text \<open>
  A service whose substring queries return until four calls are logged and raise from
  then on, and a service whose PDF vector search is cancelled.
\<close>

definition late_failure_backend :: backend where
  "late_failure_backend =
     \<lparr>embeddings_create = (\<lambda>h text. Inr [1/2, 1/4]),
      match_pdf_documents = (\<lambda>h e. Inr (Some [])),
      ilike_pdf_documents = (\<lambda>h col pat. if length h < 4 then Inr (Some []) else Inl BackendError),
      match_site_pages = (\<lambda>h e. Inr (Some [web_row 1 ''Usability'' (Val (19/20))]))\<rparr>"





section \<open>Properties of DocumentCache\<close>

lemma DocumentCache_get_absent:
  "cache c key = None \<Longrightarrow> DocumentCache_get now key c = (None, c)"
  by (simp add: DocumentCache_get_def)

text \<open>
  Claim C8.  After \<open>set\<close> at time \<open>t_set\<close>, a \<open>get\<close> of the same key at a time
  \<open>t_get\<close> with \<open>t_get - t_set \<ge> ttl\<close> returns absent and deletes the entry, so that
  a later \<open>get\<close> of the key (at any time) returns absent too; a \<open>get\<close> with
  \<open>t_get - t_set < ttl\<close> returns the stored value.  The module's cache has
  \<open>ttl = 3600\<close>.
\<close>

theorem DocumentCache_ttl_expiry:
  "ttl document_cache = 3600 \<and>
   (t_get - t_set \<ge> ttl (c::DocumentCache) \<longrightarrow>
      fst (DocumentCache_get t_get key (DocumentCache_set t_set key v c)) = None \<and>
      cache (snd (DocumentCache_get t_get key (DocumentCache_set t_set key v c))) key = None \<and>
      fst (DocumentCache_get t_later key
             (snd (DocumentCache_get t_get key (DocumentCache_set t_set key v c)))) = None) \<and>
   (t_get - t_set < ttl c \<longrightarrow>
      fst (DocumentCache_get t_get key (DocumentCache_set t_set key v c)) = Some v)"
  by (simp add: DocumentCache_get_def DocumentCache_set_def document_cache_def
      DocumentCache_init_def CACHE_TTL_def)

theorem DocumentCache_ttl_expiry_witness:
  "fst (DocumentCache_get 3601 ''k'' (DocumentCache_set 0 ''k'' ''v'' document_cache)) = None \<and>
   fst (DocumentCache_get 3602 ''k''
     (snd (DocumentCache_get 3601 ''k'' (DocumentCache_set 0 ''k'' ''v'' document_cache)))) = None \<and>
   fst (DocumentCache_get 3599 ''k'' (DocumentCache_set 0 ''k'' ''v'' document_cache)) = Some ''v''"
  using DocumentCache_ttl_expiry [where t_get = 3601 and t_set = 0 and c = document_cache and key = "''k''"
      and v = "''v''" and t_later = 3602]
    DocumentCache_ttl_expiry [where t_get = 3599 and t_set = 0 and c = document_cache and key = "''k''"
      and v = "''v''" and t_later = 0]
  by (simp add: document_cache_def DocumentCache_init_def CACHE_TTL_def)


section \<open>Properties of the sort\<close>

lemma sort_reverse_mset: "mset (sort_reverse key xs) = mset xs"
  by (simp add: sort_reverse_def)

lemma sort_reverse_sorted: "sorted_wrt (\<lambda>a b. key a \<ge> key b) (sort_reverse key xs)"
proof -
  have "sorted (map (\<lambda>x. - key x) (sort_key (\<lambda>x. - key x) xs))"
    by (rule sorted_sort_key)
  then show ?thesis
    by (simp add: sort_reverse_def sorted_map)
qed

lemma sort_reverse_stable:
  "filter (\<lambda>x. key x = k) (sort_reverse key xs) = filter (\<lambda>x. key x = k) xs"
proof -
  have "filter (\<lambda>x. - key x = - k) (sort_key (\<lambda>x. - key x) xs) =
        filter (\<lambda>x. - key x = - k) xs"
    by (rule sort_key_stable)
  then show ?thesis
    by (simp add: sort_reverse_def)
qed

section \<open>Properties of the resource ranking\<close>

lemma collect_resources_filter:
  "collect_resources fv records = map format_resource (filter (\<lambda>f. \<not> skipped fv f) records)"
  by (induction records) simp_all

lemma skipped_matches: "skipped (Some fv) flds = (\<not> matches_filter fv flds)"
  by (auto simp: skipped_def matches_filter_def lower_def Let_def)

text \<open>
  Claim C9.  With a filter value, the ranked list holds exactly the formatted records
  whose title, description, topics or theme contains the lowercased filter value (as
  multisets); it is ordered by descending relevance score; records of equal score keep
  their catalog order; a missing score counts as 3, and the other metadata fields have
  the defaults \<open>all\<close>, \<open>unknown\<close>, \<open>medium\<close> and the empty list.
\<close>

theorem ranked_resources_filter_sort:
  "mset (ranked_resources (Some fv) records) =
     mset (map format_resource (filter (matches_filter fv) records)) \<and>
   sorted_wrt (\<lambda>a b. relevance_score (r_ecr_metadata a) \<ge> relevance_score (r_ecr_metadata b))
     (ranked_resources (Some fv) records) \<and>
   (\<forall>k. filter (\<lambda>x. relevance_score (r_ecr_metadata x) = k) (ranked_resources (Some fv) records) =
        filter (\<lambda>x. relevance_score (r_ecr_metadata x) = k)
          (map format_resource (filter (matches_filter fv) records))) \<and>
   relevance_score (r_ecr_metadata (format_resource flds)) =
     (case ECR_Relevance_Score flds of None \<Rightarrow> 3 | Some n \<Rightarrow> n) \<and>
   r_ecr_metadata (format_resource no_fields) =
     \<lparr>relevance_score = 3, development_stage = ''all'', estimated_time = ''unknown'',
      complexity_level = ''medium'', prerequisites = [], key_learnings = [],
      common_pitfalls = []\<rparr>"
proof -
  have c: "collect_resources (Some fv) records =
      map format_resource (filter (matches_filter fv) records)"
    by (simp add: collect_resources_filter skipped_matches)
  show ?thesis
    unfolding ranked_resources_def c
    by (simp add: sort_reverse_mset sort_reverse_sorted sort_reverse_stable
        format_resource_def get_or_def no_fields_def)
qed

theorem ranked_resources_filter_sort_witness:
  "map r_title (ranked_resources (Some ''Usability'') catalog_example) =
     [''Alpha'', ''Beta'', ''Study design''] \<and>
   mset (ranked_resources (Some ''Usability'') catalog_example) =
     mset (map format_resource (filter (matches_filter ''Usability'') catalog_example)) \<and>
   filter (\<lambda>x. relevance_score (r_ecr_metadata x) = 5)
       (ranked_resources (Some ''Usability'') catalog_example) =
     filter (\<lambda>x. relevance_score (r_ecr_metadata x) = 5)
       (map format_resource (filter (matches_filter ''Usability'') catalog_example))"
proof -
  have "map r_title (ranked_resources (Some ''Usability'') catalog_example) =
     [''Alpha'', ''Beta'', ''Study design'']"
    by code_simp
  then show ?thesis
    using ranked_resources_filter_sort [where fv = "''Usability''" and records = catalog_example]
    by blast
qed

section \<open>Properties of get\_embedding\<close>

lemma get_embedding_body_trace:
  "trace (snd (get_embedding_body b text s)) = trace s @ [Embeddings_create text 1536]"
  by (simp add: get_embedding_body_def)

lemma get_embedding_body_lru:
  "lru (snd (get_embedding_body b text s)) = lru s"
  by (simp add: get_embedding_body_def)

lemma get_embedding_hit:
  "(text, c) \<in> set (lru s) \<Longrightarrow>
   get_embedding b text c s = (Inl RuntimeError, s\<lparr>lru := (text, c) # removeAll (text, c) (lru s)\<rparr>)"
  by (simp add: get_embedding_def Let_def)

lemma get_embedding_miss:
  "(text, c) \<notin> set (lru s) \<Longrightarrow>
   get_embedding b text c s =
     get_embedding_body b text (s\<lparr>lru := take EMBEDDING_CACHE_SIZE ((text, c) # lru s)\<rparr>)"
  by (simp add: get_embedding_def)

lemma get_embedding_lru:
  "lru (snd (get_embedding b text c s)) =
     (if (text, c) \<in> set (lru s) then (text, c) # removeAll (text, c) (lru s)
      else take EMBEDDING_CACHE_SIZE ((text, c) # lru s))"
  by (simp add: get_embedding_hit get_embedding_miss get_embedding_body_lru)

lemma get_embedding_trace:
  "trace (snd (get_embedding b text c s)) =
     (if (text, c) \<in> set (lru s) then trace s else trace s @ [Embeddings_create text 1536])"
  by (simp add: get_embedding_hit get_embedding_miss get_embedding_body_trace)

lemma take_removeAll_keeps:
  "k \<in> set (take n xs) \<Longrightarrow> k \<noteq> k' \<Longrightarrow> k \<in> set (take n (removeAll k' xs))"
proof (induction xs arbitrary: n)
  case Nil
  then show ?case by simp
next
  case (Cons x xs)
  show ?case
  proof (cases n)
    case 0
    with Cons.prems show ?thesis by simp
  next
    case (Suc m)
    show ?thesis
    proof (cases "x = k'")
      case True
      with Cons.prems Suc have "k \<in> set (take m xs)" by auto
      then have "k \<in> set (take m (removeAll k' xs))"
        using Cons.IH Cons.prems(2) by blast
      then have "k \<in> set (take (Suc m) (removeAll k' xs))"
        by (meson le_SucI order_refl set_take_subset_set_take subsetD lessI less_imp_le)
      with True Suc show ?thesis by simp
    next
      case False
      with Cons.prems Suc Cons.IH[of m] show ?thesis by auto
    qed
  qed
qed

lemma get_embedding_ages_by_one:
  assumes "k \<in> set (take n (lru s))" and "n < EMBEDDING_CACHE_SIZE"
  shows "k \<in> set (take (Suc n) (lru (snd (get_embedding b text c s))))"
proof (cases "(text, c) \<in> set (lru s)")
  case hit: True
  show ?thesis
  proof (cases "k = (text, c)")
    case True
    with hit show ?thesis by (simp add: get_embedding_lru)
  next
    case False
    with assms(1) have "k \<in> set (take n (removeAll (text, c) (lru s)))"
      by (rule take_removeAll_keeps)
    with hit show ?thesis by (simp add: get_embedding_lru)
  qed
next
  case False
  from assms(2) have "min (Suc n) EMBEDDING_CACHE_SIZE = Suc n" by simp
  with False assms(1) show ?thesis
    by (simp add: get_embedding_lru min.commute)
qed

lemma get_embeddings_ages:
  "k \<in> set (take n (lru s)) \<Longrightarrow> n + length texts \<le> EMBEDDING_CACHE_SIZE \<Longrightarrow>
   k \<in> set (take (n + length texts) (lru (get_embeddings b texts c s)))"
proof (induction texts arbitrary: n s)
  case Nil
  then show ?case by simp
next
  case (Cons t texts)
  from Cons.prems have "k \<in> set (take (Suc n) (lru (snd (get_embedding b t c s))))"
    by (intro get_embedding_ages_by_one) simp_all
  with Cons.prems Cons.IH[of "Suc n" "snd (get_embedding b t c s)"] show ?case
    by simp
qed

lemma get_embedding_key_first:
  "(text, c) \<in> set (take 1 (lru (snd (get_embedding b text c s))))"
  by (simp add: get_embedding_lru EMBEDDING_CACHE_SIZE_def)

lemma get_embedding_still_cached:
  assumes "length texts < EMBEDDING_CACHE_SIZE"
  shows "(text, c) \<in> set (lru (get_embeddings b texts c (snd (get_embedding b text c s))))"
proof -
  have "(text, c) \<in> set (take (1 + length texts)
          (lru (get_embeddings b texts c (snd (get_embedding b text c s)))))"
    using assms by (intro get_embeddings_ages get_embedding_key_first) simp
  then show ?thesis by (rule in_set_takeD)
qed

lemma get_embedding_again:
  "fst (get_embedding b text c (snd (get_embedding b text c s))) = Inl RuntimeError"
proof -
  have "(text, c) \<in> set (lru (snd (get_embedding b text c s)))"
    by (rule in_set_takeD [OF get_embedding_key_first])
  then show ?thesis by (simp add: get_embedding_hit)
qed


lemma length_removeAll_mem: "k \<in> set xs \<Longrightarrow> length (removeAll k xs) < length xs"
  by (induction xs) (auto simp: less_Suc_eq_le length_removeAll_less_eq)

text \<open>
  Claim C7.  The cache of \<open>get_embedding\<close> is keyed by the pair of text and client
  handle and holds at most 1000 keys; a call whose key is cached makes no embedding
  request, a call whose key is not cached makes exactly one; a second call with the same
  text makes none, also after fewer than 1000 calls with other texts in between, so two
  calls with one text make at most one request; on a miss with a full cache the least
  recently used key is dropped.
\<close>

theorem get_embedding_memoized:
  "EMBEDDING_CACHE_SIZE = 1000 \<and>
   ((text, c) \<in> set (lru s) \<longrightarrow> trace (snd (get_embedding b text c s)) = trace s) \<and>
   ((text, c) \<notin> set (lru s) \<longrightarrow>
      trace (snd (get_embedding b text c s)) = trace s @ [Embeddings_create text 1536]) \<and>
   (length texts < EMBEDDING_CACHE_SIZE \<longrightarrow>
      trace (snd (get_embedding b text c
                    (get_embeddings b texts c (snd (get_embedding b text c s))))) =
      trace (get_embeddings b texts c (snd (get_embedding b text c s)))) \<and>
   length (embedding_requests
             (trace (snd (get_embedding b text c (snd (get_embedding b text c s))))))
     \<le> length (embedding_requests (trace s)) + 1 \<and>
   (length (lru s) \<le> EMBEDDING_CACHE_SIZE \<longrightarrow>
      length (lru (snd (get_embedding b text c s))) \<le> EMBEDDING_CACHE_SIZE) \<and>
   ((text, c) \<notin> set (lru s) \<and> length (lru s) = EMBEDDING_CACHE_SIZE \<longrightarrow>
      lru (snd (get_embedding b text c s)) = (text, c) # butlast (lru s))"
proof -
  have hit: "(text, c) \<in> set (lru (snd (get_embedding b text c s)))"
    by (rule in_set_takeD [OF get_embedding_key_first])
  have twice: "trace (snd (get_embedding b text c (snd (get_embedding b text c s)))) =
      trace (snd (get_embedding b text c s))"
    using hit by (simp add: get_embedding_trace)
  have cap: "length (lru s) \<le> EMBEDDING_CACHE_SIZE \<Longrightarrow>
      length (lru (snd (get_embedding b text c s))) \<le> EMBEDDING_CACHE_SIZE"
    using length_removeAll_mem[of "(text, c)" "lru s"]
    by (auto simp: get_embedding_lru)
  have evict: "(text, c) \<notin> set (lru s) \<Longrightarrow> length (lru s) = EMBEDDING_CACHE_SIZE \<Longrightarrow>
      lru (snd (get_embedding b text c s)) = (text, c) # butlast (lru s)"
    by (simp add: get_embedding_lru EMBEDDING_CACHE_SIZE_def butlast_conv_take)
  show ?thesis
    using cap evict hit
    by (simp add: get_embedding_trace get_embedding_still_cached embedding_requests_def
        EMBEDDING_CACHE_SIZE_def)
qed


theorem get_embedding_memoized_witness:
  "length [''b'', ''c''] < EMBEDDING_CACHE_SIZE \<and>
   (''a'', 0) \<notin> set (lru initial) \<and>
   trace (snd (get_embedding zero_backend ''a'' 0 initial)) = [Embeddings_create ''a'' 1536] \<and>
   trace (snd (get_embedding zero_backend ''a'' 0
            (get_embeddings zero_backend [''b'', ''c''] 0
               (snd (get_embedding zero_backend ''a'' 0 initial))))) =
     [Embeddings_create ''a'' 1536, Embeddings_create ''b'' 1536, Embeddings_create ''c'' 1536]"
proof -
  have l: "length [''b'', ''c''] < EMBEDDING_CACHE_SIZE"
    by (simp add: EMBEDDING_CACHE_SIZE_def)
  have m: "(''a'', 0) \<notin> set (lru initial)"
    by (simp add: initial_def)
  have t: "trace (get_embeddings zero_backend [''b'', ''c''] 0
               (snd (get_embedding zero_backend ''a'' 0 initial))) =
     [Embeddings_create ''a'' 1536, Embeddings_create ''b'' 1536, Embeddings_create ''c'' 1536]"
    by (simp add: get_embedding_trace get_embedding_lru initial_def EMBEDDING_CACHE_SIZE_def)
  show ?thesis
    using l m t
      get_embedding_memoized [of "''a''" 0 initial zero_backend "[''b'', ''c'']"]
    by (simp add: initial_def)
qed


text \<open>
  Claim C6.  The second call of \<open>get_embedding\<close> with a text raises
  \<^verbatim>\<open>RuntimeError\<close> instead of returning a vector, whatever the service answers,
  here from the initial state with the text \<open>medical device\<close>.
\<close>

theorem get_embedding_second_call_raises:
  "fst (get_embedding b ''medical device'' 0
          (snd (get_embedding b ''medical device'' 0 initial))) = Inl RuntimeError"
  by (rule get_embedding_again)

text \<open>
  A call whose key is not cached returns 1536 entries when the service returns 1536
  entries or raises an \<^verbatim>\<open>Exception\<close>, and 1536 zeros when it raises one.
\<close>

lemma get_embedding_body_length:
  assumes "\<forall>h t v. embeddings_create b h t = Inr v \<longrightarrow> length v = 1536"
    and "\<forall>h t e. embeddings_create b h t = Inl e \<longrightarrow> is_Exception e"
  shows "\<exists>v. fst (get_embedding_body b text s) = Inr v \<and> length v = 1536"
  using assms by (auto simp: get_embedding_body_def split: sum.splits)

lemma get_embedding_body_zeros:
  "embeddings_create b (trace s) text = Inl e \<Longrightarrow> is_Exception e \<Longrightarrow>
   fst (get_embedding_body b text s) = Inr (replicate 1536 0)"
  by (simp add: get_embedding_body_def)

lemma get_embedding_miss_length:
  assumes "\<forall>h t v. embeddings_create b h t = Inr v \<longrightarrow> length v = 1536"
    and "\<forall>h t e. embeddings_create b h t = Inl e \<longrightarrow> is_Exception e"
    and "(text, c) \<notin> set (lru s)"
  shows "\<exists>v. fst (get_embedding b text c s) = Inr v \<and> length v = 1536"
  using assms(3) get_embedding_body_length [OF assms(1,2)]
  by (simp add: get_embedding_miss)

section \<open>Properties of the PDF stage\<close>

lemma add_unique_append:
  "add_unique (xs @ ys) acc = add_unique ys (add_unique xs acc)"
proof (induction xs arbitrary: acc)
  case Nil
  then show ?case by simp
next
  case (Cons x xs)
  obtain seen hyb where "acc = (seen, hyb)" by (cases acc)
  with Cons show ?case by (simp add: Let_def)
qed

lemma add_unique_extends:
  "\<exists>ys. snd (add_unique ds (seen, hyb)) = hyb @ ys"
proof (induction ds arbitrary: seen hyb)
  case Nil
  then show ?case by simp
next
  case (Cons d ds)
  show ?case
  proof (cases "get (pdf_id d) \<in> seen")
    case True
    with Cons[of seen hyb] show ?thesis by simp
  next
    case False
    from Cons[of "insert (get (pdf_id d)) seen" "hyb @ [d]"]
    obtain ys where "snd (add_unique ds (insert (get (pdf_id d)) seen, hyb @ [d])) = (hyb @ [d]) @ ys"
      by blast
    with False show ?thesis by (simp add: Let_def)
  qed
qed

lemma add_unique_empty_iff:
  "snd (add_unique ds ({}, [])) = [] \<longleftrightarrow> ds = []"
proof (cases ds)
  case Nil
  then show ?thesis by simp
next
  case (Cons d ds')
  obtain ys where "snd (add_unique ds' ({get (pdf_id d)}, [d])) = [d] @ ys"
    using add_unique_extends[of ds' "{get (pdf_id d)}" "[d]"] by blast
  with Cons show ?thesis by (simp add: Let_def)
qed

lemma add_unique_inv:
  assumes "seen = set (map (\<lambda>d. get (pdf_id d)) hyb)" "distinct (map (\<lambda>d. get (pdf_id d)) hyb)"
    "add_unique ds (seen, hyb) = (seen', hyb')"
  shows "seen' = set (map (\<lambda>d. get (pdf_id d)) hyb') \<and> distinct (map (\<lambda>d. get (pdf_id d)) hyb') \<and>
    set (map (\<lambda>d. get (pdf_id d)) hyb') = set (map (\<lambda>d. get (pdf_id d)) (hyb @ ds))"
  using assms
proof (induction ds arbitrary: seen hyb)
  case Nil
  then show ?case by auto
next
  case (Cons d ds)
  show ?case
  proof (cases "get (pdf_id d) \<in> seen")
    case True
    with Cons.prems have a: "add_unique ds (seen, hyb) = (seen', hyb')" by simp
    from Cons.IH[OF Cons.prems(1,2) a] True Cons.prems(1) show ?thesis by auto
  next
    case False
    with Cons.prems have a: "add_unique ds (insert (get (pdf_id d)) seen, hyb @ [d]) = (seen', hyb')"
      by (simp add: Let_def)
    have i1: "insert (get (pdf_id d)) seen = set (map (\<lambda>d. get (pdf_id d)) (hyb @ [d]))"
      using Cons.prems(1) by simp
    have i2: "distinct (map (\<lambda>d. get (pdf_id d)) (hyb @ [d]))"
      using Cons.prems(1,2) False by simp
    from Cons.IH[OF i1 i2 a] show ?thesis by auto
  qed
qed

lemma ilike_trace: "trace (snd (ilike b col kw s)) = trace s @ [Ilike_pdf_documents col (like_pattern kw) 10]"
  by (simp add: ilike_def)

lemma ilike_lru: "lru (snd (ilike b col kw s)) = lru s"
  by (simp add: ilike_def)

lemma keyword_search_ok:
  assumes "\<forall>h col pat. \<exists>d. ilike_pdf_documents b h col pat = Inr d"
  shows "\<exists>s'. keyword_search b kws acc s = (Inr (add_unique (keyword_rows b kws s) acc), s') \<and>
     trace s' = trace s @ keyword_calls kws \<and> lru s' = lru s"
proof (induction kws arbitrary: acc s)
  case Nil
  then show ?case by (simp add: keyword_calls_def)
next
  case (Cons kw kws)
  obtain d1 where d1: "ilike_pdf_documents b (trace s) content (like_pattern kw) = Inr d1"
    using assms by blast
  define s1 where "s1 = snd (ilike b content kw s)"
  obtain d2 where d2: "ilike_pdf_documents b (trace s1) title (like_pattern kw) = Inr d2"
    using assms by blast
  define s2 where "s2 = snd (ilike b title kw s1)"
  have e1: "ilike b content kw s = (Inr d1, s1)"
    by (simp add: s1_def ilike_def d1)
  have e2: "ilike b title kw s1 = (Inr d2, s2)"
    by (simp add: s2_def ilike_def d2)
  from Cons[of "add_unique (or_empty d2) (add_unique (or_empty d1) acc)" s2]
  obtain s' where s': "keyword_search b kws (add_unique (or_empty d2) (add_unique (or_empty d1) acc)) s2 =
     (Inr (add_unique (keyword_rows b kws s2) (add_unique (or_empty d2) (add_unique (or_empty d1) acc))), s')"
     "trace s' = trace s2 @ keyword_calls kws" "lru s' = lru s2"
    by blast
  have t: "trace s2 = trace s @ [Ilike_pdf_documents content (like_pattern kw) 10,
                         Ilike_pdf_documents title (like_pattern kw) 10]"
    by (simp add: s2_def s1_def ilike_trace)
  have l: "lru s2 = lru s" by (simp add: s2_def s1_def ilike_lru)
  show ?case
    using s' t l by (simp add: e1 e2 add_unique_append keyword_calls_def)
qed

lemma keyword_search_result:
  "keyword_search b kws acc s = (Inr acc', s') \<Longrightarrow> acc' = add_unique (keyword_rows b kws s) acc"
proof (induction kws arbitrary: acc s)
  case Nil
  then show ?case by simp
next
  case (Cons kw kws)
  then show ?case
    by (auto simp: add_unique_append split: prod.splits sum.splits)
qed

section \<open>Properties of the keyword list and of the PDF stage\<close>

lemma isspace_lower_char: "isspace (lower_char c) = isspace c"
proof -
  define n where "n = (of_char c :: nat)"
  show ?thesis
  proof (cases "(65 \<le> n \<and> n \<le> 90) \<or> (192 \<le> n \<and> n \<le> 222 \<and> n \<noteq> 215)")
    case True
    then have m: "(n + 32) mod 256 = n + 32" by auto
    have "(of_char (lower_char c) :: nat) = n + 32"
      using True m by (simp add: lower_char_def n_def [symmetric] Let_def)
    moreover have "(of_char c :: nat) = n" by (simp add: n_def)
    ultimately show ?thesis
      using True unfolding isspace_def by auto
  next
    case False
    then have "lower_char c = c"
      unfolding lower_char_def Let_def n_def by (simp only: if_False)
    then show ?thesis by simp
  qed
qed

lemma split_from_lower:
  "split_from (lower cur) (lower s) = map lower (split_from cur s)"
proof (induction s arbitrary: cur)
  case Nil
  then show ?case by (simp add: lower_def)
next
  case (Cons c s)
  have a: "lower cur @ [lower_char c] = lower (cur @ [c])" by (simp add: lower_def)
  have n: "lower [] = []" by (simp add: lower_def)
  have e: "(lower cur = []) = (cur = [])" by (simp add: lower_def)
  have l: "lower (c # s) = lower_char c # lower s" by (simp add: lower_def)
  show ?case
    using Cons[of "cur @ [c]"] Cons[of "[]"]
    by (simp add: l isspace_lower_char a e n)
qed

lemma split_lower: "split (lower s) = map lower (split s)"
  using split_from_lower[of "[]" s] by (simp add: split_def lower_def)

lemma keywords_of_tokens:
  "keywords_of q = lower q # map lower (split q) @ [''class'', ''classification'', ''device'', ''medical'']"
  by (simp add: keywords_of_def split_lower)

lemma length_keyword_calls: "length (keyword_calls kws) = 2 * length kws"
  by (induction kws) (simp_all add: keyword_calls_def)

lemma substring_searches_append:
  "substring_searches (xs @ ys) = substring_searches xs @ substring_searches ys"
  by (simp add: substring_searches_def)

lemma substring_searches_keyword_calls:
  "substring_searches (keyword_calls kws) = keyword_calls kws"
  by (induction kws) (simp_all add: keyword_calls_def substring_searches_def)

lemma get_embedding_Inr:
  assumes "get_embedding b q c s = (Inr emb, s1)"
  shows "(q, c) \<notin> set (lru s) \<and> trace s1 = trace s @ [Embeddings_create q 1536]"
proof -
  have m: "(q, c) \<notin> set (lru s)"
    using assms by (auto simp: get_embedding_hit)
  from get_embedding_trace[of b q c s] assms m show ?thesis by simp
qed

lemma pdf_stage_raises:
  "match_pdf_documents b (trace s) emb = Inl e \<Longrightarrow>
   pdf_stage b emb kws s = (Inl e, s\<lparr>trace := trace s @ [Match_pdf_documents emb 0 10]\<rparr>)"
  by (simp add: pdf_stage_def rpc_match_pdf_documents_def)

lemma pdf_stage_hits:
  "match_pdf_documents b (trace s) emb = Inr d \<Longrightarrow> or_empty d \<noteq> [] \<Longrightarrow>
   pdf_stage b emb kws s =
     (Inr (snd (add_unique (or_empty d) ({}, []))),
      s\<lparr>trace := trace s @ [Match_pdf_documents emb 0 10]\<rparr>)"
  by (simp add: pdf_stage_def rpc_match_pdf_documents_def add_unique_empty_iff Let_def)

lemma pdf_stage_fallback:
  assumes "match_pdf_documents b (trace s) emb = Inr d" and "or_empty d = []"
    and "\<forall>h col pat. \<exists>r. ilike_pdf_documents b h col pat = Inr r"
  shows "\<exists>hyb s'. pdf_stage b emb kws s = (Inr hyb, s') \<and>
     trace s' = trace s @ [Match_pdf_documents emb 0 10] @ keyword_calls kws"
proof -
  define s1 where "s1 = s\<lparr>trace := trace s @ [Match_pdf_documents emb 0 10]\<rparr>"
  obtain s' where s': "keyword_search b kws ({}, []) s1 =
      (Inr (add_unique (keyword_rows b kws s1) ({}, [])), s')"
    "trace s' = trace s1 @ keyword_calls kws"
    using keyword_search_ok[OF assms(3), of kws "({}, [])" s1] by blast
  have "pdf_stage b emb kws s = (Inr (snd (add_unique (keyword_rows b kws s1) ({}, []))), s')"
    using assms(1,2) s'(1)
    by (simp add: pdf_stage_def rpc_match_pdf_documents_def s1_def)
  moreover have "trace s' = trace s @ [Match_pdf_documents emb 0 10] @ keyword_calls kws"
    using s'(2) by (simp add: s1_def)
  ultimately show ?thesis by blast
qed

lemma pdf_stage_result:
  "pdf_stage b emb kws s = (Inr hyb, s') \<Longrightarrow>
   hyb = snd (add_unique (pdf_rows b emb kws s) ({}, []))"
  by (auto simp: pdf_stage_def pdf_rows_def rpc_match_pdf_documents_def Let_def
      add_unique_empty_iff
      dest: keyword_search_result split: sum.splits prod.splits if_splits)

lemma merged_results_pdf_failure:
  "get_embedding b q c s = (Inr emb, s1) \<Longrightarrow>
   pdf_stage b emb (keywords_of q) s1 = (Inl e, s2) \<Longrightarrow>
   merged_results b c q s = (Inl e, s2)"
  by (simp add: merged_results_def)

lemma merged_results_state:
  "get_embedding b q c s = (Inr emb, s1) \<Longrightarrow>
   pdf_stage b emb (keywords_of q) s1 = (Inr hyb, s2) \<Longrightarrow>
   snd (merged_results b c q s) = s2\<lparr>trace := trace s2 @ [Match_site_pages emb 10]\<rparr>"
  by (simp add: merged_results_def rpc_match_site_pages_def split: sum.splits option.splits)

lemma retrieve_state:
  "snd (retrieve_relevant_content_unified b c q s) = snd (merged_results b c q s)"
  by (simp add: retrieve_relevant_content_unified_def search_try_def split: prod.splits sum.splits)

lemma format_web_all_map:
  "format_web_all ds = Inr ps \<Longrightarrow> map format_web ds = map Inr ps"
  by (induction ds arbitrary: ps) (auto split: sum.splits)

lemma add_unique_subseq:
  "\<exists>ys. snd (add_unique ds (seen, hyb)) = hyb @ ys \<and> subseq ys ds"
proof (induction ds arbitrary: seen hyb)
  case Nil
  then show ?case by simp
next
  case (Cons d ds)
  show ?case
  proof (cases "get (pdf_id d) \<in> seen")
    case True
    from Cons[of seen hyb] obtain ys where
      "snd (add_unique ds (seen, hyb)) = hyb @ ys" "subseq ys ds" by blast
    with True show ?thesis by auto
  next
    case False
    from Cons[of "insert (get (pdf_id d)) seen" "hyb @ [d]"] obtain ys where
      "snd (add_unique ds (insert (get (pdf_id d)) seen, hyb @ [d])) = (hyb @ [d]) @ ys"
      "subseq ys ds" by blast
    with False have "snd (add_unique (d # ds) (seen, hyb)) = hyb @ (d # ys) \<and> subseq (d # ys) (d # ds)"
      by (simp add: Let_def)
    then show ?thesis by blast
  qed
qed

lemma first_seen_subseq: "subseq (snd (add_unique ds ({}, []))) ds"
  using add_unique_subseq[of ds "{}" "[]"] by auto

lemma first_seen_distinct:
  "distinct (map (\<lambda>d. get (pdf_id d)) (snd (add_unique ds ({}, [])))) \<and>
   set (map (\<lambda>d. get (pdf_id d)) (snd (add_unique ds ({}, [])))) = set (map (\<lambda>d. get (pdf_id d)) ds)"
proof -
  obtain seen' hyb' where a: "add_unique ds ({}, []) = (seen', hyb')"
    by (cases "add_unique ds ({}, [])")
  from add_unique_inv[OF _ _ a] show ?thesis by (simp add: a)
qed

lemma merged_results_shape:
  assumes "merged_results b c q s = (Inr rs, s')"
  shows "\<exists>emb s1 hyb s2 web_data web_passages.
      get_embedding b q c s = (Inr emb, s1) \<and>
      pdf_stage b emb (keywords_of q) s1 = (Inr hyb, s2) \<and>
      match_site_pages b (trace s2) emb = Inr (Some web_data) \<and>
      map format_web web_data = map Inr web_passages \<and>
      rs = map format_pdf hyb @ web_passages"
  using assms
  by (auto simp: merged_results_def rpc_match_site_pages_def
      dest!: format_web_all_map split: prod.splits sum.splits option.splits)

lemma retrieve_passages:
  "merged_results b c q s = (Inr rs, s') \<Longrightarrow>
   passages (fst (retrieve_relevant_content_unified b c q s)) = sort_reverse similarity_key rs"
  by (simp add: retrieve_relevant_content_unified_def search_try_def)

lemma retrieve_raised:
  "merged_results b c q s = (Inl e, s') \<Longrightarrow>
   retrieve_relevant_content_unified b c q s = (except_Exception e, s')"
  by (simp add: retrieve_relevant_content_unified_def search_try_def)

lemma merged_results_cases:
  obtains (raised) e s' where "merged_results b c q s = (Inl e, s')"
  | (returned) rs s' where "merged_results b c q s = (Inr rs, s')"
  by (cases "merged_results b c q s"; case_tac a; auto)

lemma returned_collapse:
  "\<not> isl (fst x) \<Longrightarrow> x = (Inr (projr (fst x)), snd x)"
  by (simp add: prod_eq_iff)

lemma mock_backend_sel:
  "embeddings_create (mock_backend e p k w) h t = e"
  "match_pdf_documents (mock_backend e p k w) h x = p"
  "ilike_pdf_documents (mock_backend e p k w) h col pat = k col"
  "match_site_pages (mock_backend e p k w) h x = w"
  by (simp_all add: mock_backend_def)

lemma keyword_rows_mock:
  "keyword_rows (mock_backend e p k w) kws s =
     concat (map (\<lambda>kw. rows (k content) @ rows (k title)) kws)"
  by (induction kws arbitrary: s) (simp_all add: ilike_def mock_backend_sel)

lemma keyword_search_mock:
  assumes "k content = Inr r1" and "k title = Inr r2"
  shows "keyword_search (mock_backend e p k w) kws acc s =
     (Inr (add_unique (concat (map (\<lambda>kw. or_empty r1 @ or_empty r2) kws)) acc),
      s\<lparr>trace := trace s @ keyword_calls kws\<rparr>)"
proof (induction kws arbitrary: acc s)
  case Nil
  then show ?case by (simp add: keyword_calls_def)
next
  case (Cons kw kws)
  show ?case
    by (simp add: ilike_def mock_backend_sel assms add_unique_append Cons)
       (simp add: keyword_calls_def)
qed

lemma passages_except_Exception: "passages (except_Exception e) = []"
  by (simp add: except_Exception_def)

lemma keyword_calls_Cons:
  "keyword_calls (kw # kws) =
     Ilike_pdf_documents content (like_pattern kw) 10 #
     Ilike_pdf_documents title (like_pattern kw) 10 # keyword_calls kws"
  by (simp add: keyword_calls_def)

lemma substring_searches_take_keyword_calls:
  "substring_searches (take m (keyword_calls kws)) = take m (keyword_calls kws)"
proof -
  have "substring_searches (keyword_calls kws) = keyword_calls kws"
    by (rule substring_searches_keyword_calls)
  then have "\<forall>c \<in> set (keyword_calls kws).
      (case c of Ilike_pdf_documents col pat n \<Rightarrow> True | _ \<Rightarrow> False)"
    unfolding substring_searches_def by (simp add: filter_id_conv)
  then have "\<forall>c \<in> set (take m (keyword_calls kws)).
      (case c of Ilike_pdf_documents col pat n \<Rightarrow> True | _ \<Rightarrow> False)"
    by (meson in_set_takeD)
  then show ?thesis
    unfolding substring_searches_def by (simp add: filter_id_conv)
qed

text \<open>
  The keyword iteration up to the first substring query that raises: when the queries
  before the one at position \<open>n\<close> return and that one raises, the iteration ends with
  its exception, and the log ends with that query.
\<close>

lemma keyword_search_raise:
  assumes "n < length (keyword_calls kws)"
    and "\<forall>i<n. \<exists>r. ilike_answer b (trace s @ take i (keyword_calls kws))
                        (keyword_calls kws ! i) = Inr r"
    and "ilike_answer b (trace s @ take n (keyword_calls kws)) (keyword_calls kws ! n) = Inl e"
  shows "keyword_search b kws acc s =
     (Inl e, s\<lparr>trace := trace s @ take (Suc n) (keyword_calls kws)\<rparr>)"
  using assms
proof (induction kws arbitrary: n acc s)
  case Nil
  then show ?case by (simp add: keyword_calls_def)
next
  case (Cons kw kws)
  let ?c1 = "Ilike_pdf_documents content (like_pattern kw) 10"
  let ?c2 = "Ilike_pdf_documents title (like_pattern kw) 10"
  show ?case
  proof (cases n)
    case 0
    with Cons.prems(3) have "ilike_pdf_documents b (trace s) content (like_pattern kw) = Inl e"
      by (simp add: keyword_calls_Cons)
    with 0 show ?thesis
      by (simp add: ilike_def keyword_calls_Cons)
  next
    case (Suc m)
    from Cons.prems(2) Suc
    have "\<exists>r. ilike_answer b (trace s @ take 0 (keyword_calls (kw # kws)))
                        (keyword_calls (kw # kws) ! 0) = Inr r"
      by blast
    then obtain r1 where r1: "ilike_pdf_documents b (trace s) content (like_pattern kw) = Inr r1"
      by (auto simp: keyword_calls_Cons)
    show ?thesis
    proof (cases m)
      case 0
      with Cons.prems(3) Suc
      have "ilike_pdf_documents b (trace s @ [?c1]) title (like_pattern kw) = Inl e"
        by (simp add: keyword_calls_Cons)
      with 0 Suc r1 show ?thesis
        by (simp add: ilike_def keyword_calls_Cons)
    next
      case (Suc k)
      note n = \<open>n = Suc m\<close> \<open>m = Suc k\<close>
      from Cons.prems(2) n
      have "\<exists>r. ilike_answer b (trace s @ take 1 (keyword_calls (kw # kws)))
                        (keyword_calls (kw # kws) ! 1) = Inr r"
        by (metis One_nat_def Suc_less_eq zero_less_Suc)
      then obtain r2 where
        r2: "ilike_pdf_documents b (trace s @ [?c1]) title (like_pattern kw) = Inr r2"
        by (auto simp: keyword_calls_Cons)
      define s2 where "s2 = s\<lparr>trace := trace s @ [?c1, ?c2]\<rparr>"
      have t2: "trace s2 = trace s @ [?c1, ?c2]" by (simp add: s2_def)
      have a1: "k < length (keyword_calls kws)"
        using Cons.prems(1) n by (simp add: keyword_calls_Cons)
      have a2: "\<forall>i<k. \<exists>r. ilike_answer b (trace s2 @ take i (keyword_calls kws))
                        (keyword_calls kws ! i) = Inr r"
      proof (intro allI impI)
        fix i assume "i < k"
        then have "Suc (Suc i) < n" using n by simp
        with Cons.prems(2) have "\<exists>r. ilike_answer b
            (trace s @ take (Suc (Suc i)) (keyword_calls (kw # kws)))
            (keyword_calls (kw # kws) ! Suc (Suc i)) = Inr r"
          by blast
        then show "\<exists>r. ilike_answer b (trace s2 @ take i (keyword_calls kws))
                        (keyword_calls kws ! i) = Inr r"
          by (simp add: keyword_calls_Cons t2)
      qed
      have a3: "ilike_answer b (trace s2 @ take k (keyword_calls kws))
                  (keyword_calls kws ! k) = Inl e"
        using Cons.prems(3) n by (simp add: keyword_calls_Cons t2)
      have step: "keyword_search b (kw # kws) acc s =
          keyword_search b kws
            (add_unique (or_empty r2) (add_unique (or_empty r1) acc)) s2"
        by (simp add: ilike_def r1 r2 s2_def)
      show ?thesis
        unfolding step Cons.IH [OF a1 a2 a3]
        by (simp add: n keyword_calls_Cons s2_def)
    qed
  qed
qed

lemma pdf_stage_keyword_raise:
  assumes "match_pdf_documents b (trace s) emb = Inr d" and "or_empty d = []"
    and "n < length (keyword_calls kws)"
    and "\<forall>i<n. \<exists>r. ilike_answer b
           (trace s @ Match_pdf_documents emb 0 10 # take i (keyword_calls kws))
           (keyword_calls kws ! i) = Inr r"
    and "ilike_answer b (trace s @ Match_pdf_documents emb 0 10 # take n (keyword_calls kws))
           (keyword_calls kws ! n) = Inl e"
  shows "pdf_stage b emb kws s =
     (Inl e, s\<lparr>trace := trace s @ Match_pdf_documents emb 0 10 #
                              take (Suc n) (keyword_calls kws)\<rparr>)"
proof -
  define s1 where "s1 = s\<lparr>trace := trace s @ [Match_pdf_documents emb 0 10]\<rparr>"
  have k: "keyword_search b kws ({}, []) s1 =
     (Inl e, s1\<lparr>trace := trace s1 @ take (Suc n) (keyword_calls kws)\<rparr>)"
    using assms(3-5) by (intro keyword_search_raise) (simp_all add: s1_def)
  show ?thesis
    using assms(1,2) k
    by (simp add: pdf_stage_def rpc_match_pdf_documents_def s1_def)
qed








section \<open>The keyword fallback\<close>

text \<open>
  Claim C1.  The keyword list is the lowercased query, then each lowercased
  whitespace-delimited token of the query, then \<open>class\<close>, \<open>classification\<close>,
  \<open>device\<close>, \<open>medical\<close>.  When the PDF vector search returns at least one row, the
  search issues no substring query.  When it returns no row and no substring query raises,
  the search issues exactly the queries of \<open>keyword_calls\<close>: for each keyword one on
  the content and one on the title, each with limit 10, that is twice the number of
  keywords.  When it returns no row and the substring query at position \<open>n\<close> of
  \<open>keyword_calls\<close> is the first that raises, the search ends with that exception and
  the substring queries issued are the first \<open>n + 1\<close> of \<open>keyword_calls\<close>: none
  is issued after the one that raises.
\<close>

theorem keyword_fallback_calls:
  assumes "get_embedding b q c s = (Inr emb, s1)"
    and "match_pdf_documents b (trace s1) emb = Inr d"
  shows "keywords_of q =
      lower q # map lower (split q) @ [''class'', ''classification'', ''device'', ''medical''] \<and>
    (or_empty d \<noteq> [] \<longrightarrow>
       substring_searches (trace (snd (retrieve_relevant_content_unified b c q s))) =
       substring_searches (trace s)) \<and>
    (or_empty d = [] \<and> (\<forall>h col pat. \<exists>r. ilike_pdf_documents b h col pat = Inr r) \<longrightarrow>
       substring_searches (trace (snd (retrieve_relevant_content_unified b c q s))) =
       substring_searches (trace s) @ keyword_calls (keywords_of q) \<and>
       length (keyword_calls (keywords_of q)) = 2 * length (keywords_of q)) \<and>
    (or_empty d = [] \<and> n < length (keyword_calls (keywords_of q)) \<and>
     (\<forall>i<n. \<exists>r. ilike_answer b
         (trace s1 @ Match_pdf_documents emb 0 10 # take i (keyword_calls (keywords_of q)))
         (keyword_calls (keywords_of q) ! i) = Inr r) \<and>
     ilike_answer b
         (trace s1 @ Match_pdf_documents emb 0 10 # take n (keyword_calls (keywords_of q)))
         (keyword_calls (keywords_of q) ! n) = Inl e \<longrightarrow>
       retrieve_relevant_content_unified b c q s =
         (except_Exception e,
          s1\<lparr>trace := trace s1 @ Match_pdf_documents emb 0 10 #
                                 take (Suc n) (keyword_calls (keywords_of q))\<rparr>) \<and>
       substring_searches (trace (snd (retrieve_relevant_content_unified b c q s))) =
       substring_searches (trace s) @ take (Suc n) (keyword_calls (keywords_of q)))"
proof -
  have t1: "trace s1 = trace s @ [Embeddings_create q 1536]"
    using get_embedding_Inr[OF assms(1)] by simp
  have raise: "retrieve_relevant_content_unified b c q s =
         (except_Exception e,
          s1\<lparr>trace := trace s1 @ Match_pdf_documents emb 0 10 #
                                 take (Suc n) (keyword_calls (keywords_of q))\<rparr>) \<and>
       substring_searches (trace (snd (retrieve_relevant_content_unified b c q s))) =
       substring_searches (trace s) @ take (Suc n) (keyword_calls (keywords_of q))"
    if e: "or_empty d = []" and n: "n < length (keyword_calls (keywords_of q))"
      and r: "\<forall>i<n. \<exists>r. ilike_answer b
         (trace s1 @ Match_pdf_documents emb 0 10 # take i (keyword_calls (keywords_of q)))
         (keyword_calls (keywords_of q) ! i) = Inr r"
      and x: "ilike_answer b
         (trace s1 @ Match_pdf_documents emb 0 10 # take n (keyword_calls (keywords_of q)))
         (keyword_calls (keywords_of q) ! n) = Inl e"
  proof -
    have p: "retrieve_relevant_content_unified b c q s =
         (except_Exception e,
          s1\<lparr>trace := trace s1 @ Match_pdf_documents emb 0 10 #
                                 take (Suc n) (keyword_calls (keywords_of q))\<rparr>)"
      by (rule retrieve_raised [OF merged_results_pdf_failure [OF assms(1)
            pdf_stage_keyword_raise [OF assms(2) e n r x]]])
    have "substring_searches (trace s1 @ Match_pdf_documents emb 0 10 #
              take (Suc n) (keyword_calls (keywords_of q))) =
          substring_searches (trace s) @ take (Suc n) (keyword_calls (keywords_of q))"
      using substring_searches_take_keyword_calls [of "Suc n" "keywords_of q"]
      by (simp add: t1 substring_searches_def)
    with p show ?thesis by simp
  qed
  have hits: "substring_searches (trace (snd (retrieve_relevant_content_unified b c q s))) =
       substring_searches (trace s)" if "or_empty d \<noteq> []"
  proof -
    from pdf_stage_hits[OF assms(2) that, of "keywords_of q"]
    have "snd (merged_results b c q s) =
        s1\<lparr>trace := trace s1 @ [Match_pdf_documents emb 0 10] @ [Match_site_pages emb 10]\<rparr>"
      using merged_results_state[OF assms(1)] by simp
    then show ?thesis
      by (simp add: retrieve_state t1 substring_searches_def)
  qed
  have fallback: "substring_searches (trace (snd (retrieve_relevant_content_unified b c q s))) =
       substring_searches (trace s) @ keyword_calls (keywords_of q)"
    if "or_empty d = []" and "\<forall>h col pat. \<exists>r. ilike_pdf_documents b h col pat = Inr r"
  proof -
    from pdf_stage_fallback[OF assms(2) that, of "keywords_of q"]
    obtain hyb s2 where p: "pdf_stage b emb (keywords_of q) s1 = (Inr hyb, s2)"
      and t2: "trace s2 = trace s1 @ [Match_pdf_documents emb 0 10] @ keyword_calls (keywords_of q)"
      by blast
    have "trace (snd (merged_results b c q s)) = trace s2 @ [Match_site_pages emb 10]"
      using merged_results_state[OF assms(1) p] by simp
    then show ?thesis
      by (simp add: retrieve_state t1 t2 substring_searches_def
          substring_searches_keyword_calls [unfolded substring_searches_def])
  qed
  have k: "keywords_of q =
      lower q # map lower (split q) @ [''class'', ''classification'', ''device'', ''medical'']"
    by (rule keywords_of_tokens)
  have l: "length (keyword_calls (keywords_of q)) = 2 * length (keywords_of q)"
    by (rule length_keyword_calls)
  from k l hits fallback raise show ?thesis by blast
qed

theorem keyword_fallback_calls_witness:
  "get_embedding fallback_backend ''Class II'' 0 initial =
     (Inr [1/2, 1/4], \<lparr>lru = [(''Class II'', 0)], trace = [Embeddings_create ''Class II'' 1536]\<rparr>) \<and>
   match_pdf_documents fallback_backend [Embeddings_create ''Class II'' 1536] [1/2, 1/4] =
     Inr (Some []) \<and>
   keywords_of ''Class II'' =
     [''class ii'', ''class'', ''ii'', ''class'', ''classification'', ''device'', ''medical''] \<and>
   length (substring_searches (trace (snd
      (retrieve_relevant_content_unified fallback_backend 0 ''Class II'' initial)))) = 14 \<and>
   get_embedding ranking_backend ''Class II'' 0 initial =
     (Inr [1/2, 1/4], \<lparr>lru = [(''Class II'', 0)], trace = [Embeddings_create ''Class II'' 1536]\<rparr>) \<and>
   substring_searches (trace (snd
      (retrieve_relevant_content_unified ranking_backend 0 ''Class II'' initial))) = [] \<and>
   substring_searches (trace (snd
      (retrieve_relevant_content_unified late_failure_backend 0 ''q'' initial))) =
     [Ilike_pdf_documents content ''%q%'' 10, Ilike_pdf_documents title ''%q%'' 10,
      Ilike_pdf_documents content ''%q%'' 10]"
proof -
  have kq: "keywords_of ''q'' =
     [''q'', ''q'', ''class'', ''classification'', ''device'', ''medical'']"
    by code_simp
  have e2: "get_embedding late_failure_backend ''q'' 0 initial =
     (Inr [1/2, 1/4], \<lparr>lru = [(''q'', 0)], trace = [Embeddings_create ''q'' 1536]\<rparr>)"
    by code_simp
  have m2: "match_pdf_documents late_failure_backend
      (trace \<lparr>lru = [(''q'', 0)], trace = [Embeddings_create ''q'' 1536]\<rparr>)
      [1/2, 1/4] = Inr (Some [])"
    by (simp add: late_failure_backend_def)
  have n2: "2 < length (keyword_calls (keywords_of ''q''))"
    by (simp add: length_keyword_calls kq)
  have r2: "\<forall>i<2. \<exists>r. ilike_answer late_failure_backend
         (trace \<lparr>lru = [(''q'', 0)], trace = [Embeddings_create ''q'' 1536]\<rparr> @
          Match_pdf_documents [1/2, 1/4] 0 10 # take i (keyword_calls (keywords_of ''q'')))
         (keyword_calls (keywords_of ''q'') ! i) = Inr r"
    unfolding kq
    by (auto simp: keyword_calls_Cons late_failure_backend_def less_Suc_eq numeral_2_eq_2)
  have x2: "ilike_answer late_failure_backend
         (trace \<lparr>lru = [(''q'', 0)], trace = [Embeddings_create ''q'' 1536]\<rparr> @
          Match_pdf_documents [1/2, 1/4] 0 10 # take 2 (keyword_calls (keywords_of ''q'')))
         (keyword_calls (keywords_of ''q'') ! 2) = Inl BackendError"
    unfolding kq
    by (simp add: keyword_calls_Cons late_failure_backend_def numeral_2_eq_2)
  have o2: "or_empty (Some ([]::pdf_doc list)) = []"
    by simp
  from keyword_fallback_calls [OF e2 m2, where n = 2 and e = BackendError] o2 n2 r2 x2
  have "substring_searches (trace (snd
      (retrieve_relevant_content_unified late_failure_backend 0 ''q'' initial))) =
       substring_searches (trace initial) @ take (Suc 2) (keyword_calls (keywords_of ''q''))"
    by blast
  then have late: "substring_searches (trace (snd
      (retrieve_relevant_content_unified late_failure_backend 0 ''q'' initial))) =
     [Ilike_pdf_documents content ''%q%'' 10, Ilike_pdf_documents title ''%q%'' 10,
      Ilike_pdf_documents content ''%q%'' 10]"
    unfolding kq
    by (simp add: keyword_calls_Cons initial_def substring_searches_def like_pattern_def
        numeral_2_eq_2)
  have e: "get_embedding fallback_backend ''Class II'' 0 initial =
     (Inr [1/2, 1/4], \<lparr>lru = [(''Class II'', 0)], trace = [Embeddings_create ''Class II'' 1536]\<rparr>)"
    by code_simp
  have m: "match_pdf_documents fallback_backend
      (trace \<lparr>lru = [(''Class II'', 0)], trace = [Embeddings_create ''Class II'' 1536]\<rparr>)
      [1/2, 1/4] = Inr (Some [])"
    by (simp add: fallback_backend_def mock_backend_def)
  have a: "\<forall>h col pat. \<exists>r. ilike_pdf_documents fallback_backend h col pat = Inr r"
    by (simp add: fallback_backend_def mock_backend_def split: column.split)
  have k: "keywords_of ''Class II'' =
     [''class ii'', ''class'', ''ii'', ''class'', ''classification'', ''device'', ''medical'']"
    by code_simp
  have e': "get_embedding ranking_backend ''Class II'' 0 initial =
     (Inr [1/2, 1/4], \<lparr>lru = [(''Class II'', 0)], trace = [Embeddings_create ''Class II'' 1536]\<rparr>)"
    by code_simp
  have m': "match_pdf_documents ranking_backend
      (trace \<lparr>lru = [(''Class II'', 0)], trace = [Embeddings_create ''Class II'' 1536]\<rparr>)
      [1/2, 1/4] =
      Inr (Some [pdf_row 1 ''Risk classes'' (Val (9/10)), pdf_row 2 ''Guidance'' Missing])"
    by (simp add: ranking_backend_def mock_backend_def)
  have i: "substring_searches (trace initial) = []"
    by (simp add: initial_def substring_searches_def)
  from keyword_fallback_calls [OF e m] a
  have f: "substring_searches (trace (snd
      (retrieve_relevant_content_unified fallback_backend 0 ''Class II'' initial))) =
       substring_searches (trace initial) @ keyword_calls (keywords_of ''Class II'')"
    by simp
  have n: "length (substring_searches (trace (snd
      (retrieve_relevant_content_unified fallback_backend 0 ''Class II'' initial)))) = 14"
    unfolding f i k by (simp add: length_keyword_calls)
  from keyword_fallback_calls [OF e' m']
  have g: "substring_searches (trace (snd
      (retrieve_relevant_content_unified ranking_backend 0 ''Class II'' initial))) = []"
    by (simp add: i)
  have m2: "match_pdf_documents fallback_backend [Embeddings_create ''Class II'' 1536] [1/2, 1/4] =
     Inr (Some [])"
    using m by simp
  from e m2 k n e' g late show ?thesis by blast
qed

text \<open>
  Claim C1, without the condition on the substring queries: the vector search returns no
  row, the first substring query raises, and it is the only one issued, where twice the
  number of keywords is 12.
\<close>

theorem keyword_fallback_calls_counterexample:
  "rows (match_pdf_documents substring_down_backend [Embeddings_create ''q'' 1536] [1/2, 1/4]) = [] \<and>
   substring_searches (trace (snd
      (retrieve_relevant_content_unified substring_down_backend 0 ''q'' initial))) =
     [Ilike_pdf_documents content ''%q%'' 10] \<and>
   2 * length (keywords_of ''q'') = 12"
  by code_simp

section \<open>A store call that raises\<close>

lemma keyword_search_web_searches:
  "keyword_search b kws acc s = (r, s') \<Longrightarrow> web_searches (trace s') = web_searches (trace s)"
proof (induction kws arbitrary: acc s)
  case Nil
  then show ?case by auto
next
  case (Cons kw kws)
  then show ?case
    by (auto simp: ilike_def web_searches_def split: sum.splits)
qed

lemma pdf_stage_web_searches:
  "pdf_stage b emb kws s = (r, s') \<Longrightarrow> web_searches (trace s') = web_searches (trace s)"
  by (auto simp: pdf_stage_def rpc_match_pdf_documents_def Let_def web_searches_def
      dest!: keyword_search_web_searches split: sum.splits prod.splits if_splits)

lemma pdf_stage_first_keyword_raises:
  assumes "match_pdf_documents b (trace s) emb = Inr d" and "or_empty d = []"
    and "ilike_pdf_documents b (trace s @ [Match_pdf_documents emb 0 10]) content (like_pattern kw) = Inl e"
  shows "pdf_stage b emb (kw # kws) s =
     (Inl e, s\<lparr>trace := trace s @ [Match_pdf_documents emb 0 10,
                                    Ilike_pdf_documents content (like_pattern kw) 10]\<rparr>)"
  using assms by (simp add: pdf_stage_def rpc_match_pdf_documents_def ilike_def)

text \<open>
  Claim C2.  An exception of a store call is not contained at its stage: it leaves the
  \<^verbatim>\<open>try\<close> block, which spans the whole function, and meets the one handler
  of lines 455-457.  When the PDF vector search or a substring query (the first, or the
  one at any position \<open>n\<close> of \<open>keyword_calls\<close>) raises, the search ends in the
  state of the failing call, so the web search is not issued; when the web search
  raises, the search ends whatever the PDF stage had gathered.  It ends with the empty
  string when the exception is an \<^verbatim>\<open>Exception\<close>; any other exception
  leaves the function.
\<close>

theorem store_failure_ends_search:
  assumes "get_embedding b q c s = (Inr emb, s1)"
  shows "(match_pdf_documents b (trace s1) emb = Inl e \<longrightarrow>
       retrieve_relevant_content_unified b c q s =
         (except_Exception e, s1\<lparr>trace := trace s1 @ [Match_pdf_documents emb 0 10]\<rparr>)) \<and>
    (match_pdf_documents b (trace s1) emb = Inr d \<and> or_empty d = [] \<and>
     ilike_pdf_documents b (trace s1 @ [Match_pdf_documents emb 0 10]) content
       (like_pattern (lower q)) = Inl e \<longrightarrow>
       retrieve_relevant_content_unified b c q s =
         (except_Exception e, s1\<lparr>trace := trace s1 @ [Match_pdf_documents emb 0 10,
            Ilike_pdf_documents content (like_pattern (lower q)) 10]\<rparr>)) \<and>
    (match_pdf_documents b (trace s1) emb = Inr d \<and> or_empty d = [] \<and>
     n < length (keyword_calls (keywords_of q)) \<and>
     (\<forall>i<n. \<exists>r. ilike_answer b
         (trace s1 @ Match_pdf_documents emb 0 10 # take i (keyword_calls (keywords_of q)))
         (keyword_calls (keywords_of q) ! i) = Inr r) \<and>
     ilike_answer b
         (trace s1 @ Match_pdf_documents emb 0 10 # take n (keyword_calls (keywords_of q)))
         (keyword_calls (keywords_of q) ! n) = Inl e \<longrightarrow>
       retrieve_relevant_content_unified b c q s =
         (except_Exception e,
          s1\<lparr>trace := trace s1 @ Match_pdf_documents emb 0 10 #
                                 take (Suc n) (keyword_calls (keywords_of q))\<rparr>)) \<and>
    (pdf_stage b emb (keywords_of q) s1 = (Inl e, s2) \<longrightarrow>
       retrieve_relevant_content_unified b c q s = (except_Exception e, s2) \<and>
       web_searches (trace s2) = web_searches (trace s)) \<and>
    (pdf_stage b emb (keywords_of q) s1 = (Inr hyb, s2) \<and>
     match_site_pages b (trace s2) emb = Inl e \<longrightarrow>
       retrieve_relevant_content_unified b c q s =
         (except_Exception e, s2\<lparr>trace := trace s2 @ [Match_site_pages emb 10]\<rparr>)) \<and>
    (is_Exception e \<longrightarrow> except_Exception e = Empty_string) \<and>
    (\<not> is_Exception e \<longrightarrow> except_Exception e = Raises e)"
proof -
  have t1: "trace s1 = trace s @ [Embeddings_create q 1536]"
    using get_embedding_Inr[OF assms] by simp
  have w1: "web_searches (trace s1) = web_searches (trace s)"
    by (simp add: t1 web_searches_def)
  have a: "retrieve_relevant_content_unified b c q s = (except_Exception e, s2)"
    if "pdf_stage b emb (keywords_of q) s1 = (Inl e, s2)" for s2
    using merged_results_pdf_failure[OF assms that] by (rule retrieve_raised)
  have k: "keywords_of q = lower q # (split (lower q) @ [''class'', ''classification'', ''device'', ''medical''])"
    by (simp add: keywords_of_def)
  have d: "retrieve_relevant_content_unified b c q s =
         (except_Exception e, s2\<lparr>trace := trace s2 @ [Match_site_pages emb 10]\<rparr>)"
    if "pdf_stage b emb (keywords_of q) s1 = (Inr hyb, s2)"
      and "match_site_pages b (trace s2) emb = Inl e"
  proof -
    have "merged_results b c q s = (Inl e, s2\<lparr>trace := trace s2 @ [Match_site_pages emb 10]\<rparr>)"
      using assms that by (simp add: merged_results_def rpc_match_site_pages_def)
    then show ?thesis by (rule retrieve_raised)
  qed
  have c1: "match_pdf_documents b (trace s1) emb = Inl e \<longrightarrow>
       retrieve_relevant_content_unified b c q s =
         (except_Exception e, s1\<lparr>trace := trace s1 @ [Match_pdf_documents emb 0 10]\<rparr>)"
    using a pdf_stage_raises[of b s1 emb e "keywords_of q"] by blast
  have c2: "match_pdf_documents b (trace s1) emb = Inr d \<and> or_empty d = [] \<and>
     ilike_pdf_documents b (trace s1 @ [Match_pdf_documents emb 0 10]) content
       (like_pattern (lower q)) = Inl e \<longrightarrow>
       retrieve_relevant_content_unified b c q s =
         (except_Exception e, s1\<lparr>trace := trace s1 @ [Match_pdf_documents emb 0 10,
            Ilike_pdf_documents content (like_pattern (lower q)) 10]\<rparr>)"
    using a pdf_stage_first_keyword_raises[of b s1 emb d "lower q" e
        "split (lower q) @ [''class'', ''classification'', ''device'', ''medical'']"]
    by (auto simp: k)
  have c3: "match_pdf_documents b (trace s1) emb = Inr d \<and> or_empty d = [] \<and>
     n < length (keyword_calls (keywords_of q)) \<and>
     (\<forall>i<n. \<exists>r. ilike_answer b
         (trace s1 @ Match_pdf_documents emb 0 10 # take i (keyword_calls (keywords_of q)))
         (keyword_calls (keywords_of q) ! i) = Inr r) \<and>
     ilike_answer b
         (trace s1 @ Match_pdf_documents emb 0 10 # take n (keyword_calls (keywords_of q)))
         (keyword_calls (keywords_of q) ! n) = Inl e \<longrightarrow>
       retrieve_relevant_content_unified b c q s =
         (except_Exception e,
          s1\<lparr>trace := trace s1 @ Match_pdf_documents emb 0 10 #
                                 take (Suc n) (keyword_calls (keywords_of q))\<rparr>)"
    using a pdf_stage_keyword_raise[of b s1 emb d n "keywords_of q" e] by blast
  have c4: "pdf_stage b emb (keywords_of q) s1 = (Inl e, s2) \<longrightarrow>
       retrieve_relevant_content_unified b c q s = (except_Exception e, s2) \<and>
       web_searches (trace s2) = web_searches (trace s)"
    using a w1 pdf_stage_web_searches[of b emb "keywords_of q" s1 "Inl e" s2] by auto
  have c5: "pdf_stage b emb (keywords_of q) s1 = (Inr hyb, s2) \<and>
     match_site_pages b (trace s2) emb = Inl e \<longrightarrow>
       retrieve_relevant_content_unified b c q s =
         (except_Exception e, s2\<lparr>trace := trace s2 @ [Match_site_pages emb 10]\<rparr>)"
    using d by blast
  have c6: "(is_Exception e \<longrightarrow> except_Exception e = Empty_string) \<and>
    (\<not> is_Exception e \<longrightarrow> except_Exception e = Raises e)"
    by (simp add: except_Exception_def)
  from c1 c2 c3 c4 c5 c6 show ?thesis by blast
qed

theorem store_failure_ends_search_witness:
  "get_embedding pdf_down_backend ''q'' 0 initial =
     (Inr [1/2, 1/4], \<lparr>lru = [(''q'', 0)], trace = [Embeddings_create ''q'' 1536]\<rparr>) \<and>
   match_pdf_documents pdf_down_backend [Embeddings_create ''q'' 1536] [1/2, 1/4] =
     Inl BackendError \<and>
   retrieve_relevant_content_unified pdf_down_backend 0 ''q'' initial =
     (Empty_string,
      \<lparr>lru = [(''q'', 0)],
       trace = [Embeddings_create ''q'' 1536, Match_pdf_documents [1/2, 1/4] 0 10]\<rparr>) \<and>
   get_embedding web_down_backend ''q'' 0 initial =
     (Inr [1/2, 1/4], \<lparr>lru = [(''q'', 0)], trace = [Embeddings_create ''q'' 1536]\<rparr>) \<and>
   pdf_stage web_down_backend [1/2, 1/4] (keywords_of ''q'')
       \<lparr>lru = [(''q'', 0)], trace = [Embeddings_create ''q'' 1536]\<rparr> =
     (Inr [pdf_row 1 ''Risk classes'' (Val (9/10))],
      \<lparr>lru = [(''q'', 0)],
       trace = [Embeddings_create ''q'' 1536, Match_pdf_documents [1/2, 1/4] 0 10]\<rparr>) \<and>
   match_site_pages web_down_backend
       [Embeddings_create ''q'' 1536, Match_pdf_documents [1/2, 1/4] 0 10] [1/2, 1/4] =
     Inl BackendError \<and>
   retrieve_relevant_content_unified web_down_backend 0 ''q'' initial =
     (Empty_string,
      \<lparr>lru = [(''q'', 0)],
       trace = [Embeddings_create ''q'' 1536, Match_pdf_documents [1/2, 1/4] 0 10,
                Match_site_pages [1/2, 1/4] 10]\<rparr>) \<and>
   retrieve_relevant_content_unified late_failure_backend 0 ''q'' initial =
     (Empty_string,
      \<lparr>lru = [(''q'', 0)],
       trace = [Embeddings_create ''q'' 1536, Match_pdf_documents [1/2, 1/4] 0 10,
                Ilike_pdf_documents content ''%q%'' 10, Ilike_pdf_documents title ''%q%'' 10,
                Ilike_pdf_documents content ''%q%'' 10]\<rparr>)"
proof -
  have kq: "keywords_of ''q'' =
     [''q'', ''q'', ''class'', ''classification'', ''device'', ''medical'']"
    by code_simp
  have e2: "get_embedding late_failure_backend ''q'' 0 initial =
     (Inr [1/2, 1/4], \<lparr>lru = [(''q'', 0)], trace = [Embeddings_create ''q'' 1536]\<rparr>)"
    by code_simp
  have m2: "match_pdf_documents late_failure_backend
      (trace \<lparr>lru = [(''q'', 0)], trace = [Embeddings_create ''q'' 1536]\<rparr>)
      [1/2, 1/4] = Inr (Some [])"
    by (simp add: late_failure_backend_def)
  have o2: "or_empty (Some ([]::pdf_doc list)) = []"
    by simp
  have n2: "2 < length (keyword_calls (keywords_of ''q''))"
    by (simp add: length_keyword_calls kq)
  have r2: "\<forall>i<2. \<exists>r. ilike_answer late_failure_backend
         (trace \<lparr>lru = [(''q'', 0)], trace = [Embeddings_create ''q'' 1536]\<rparr> @
          Match_pdf_documents [1/2, 1/4] 0 10 # take i (keyword_calls (keywords_of ''q'')))
         (keyword_calls (keywords_of ''q'') ! i) = Inr r"
    unfolding kq
    by (auto simp: keyword_calls_Cons late_failure_backend_def less_Suc_eq numeral_2_eq_2)
  have x2: "ilike_answer late_failure_backend
         (trace \<lparr>lru = [(''q'', 0)], trace = [Embeddings_create ''q'' 1536]\<rparr> @
          Match_pdf_documents [1/2, 1/4] 0 10 # take 2 (keyword_calls (keywords_of ''q'')))
         (keyword_calls (keywords_of ''q'') ! 2) = Inl BackendError"
    unfolding kq
    by (simp add: keyword_calls_Cons late_failure_backend_def numeral_2_eq_2)
  from store_failure_ends_search [OF e2, where d = "Some []" and n = 2 and e = BackendError]
    m2 o2 n2 r2 x2
  have "retrieve_relevant_content_unified late_failure_backend 0 ''q'' initial =
     (Empty_string,
      \<lparr>lru = [(''q'', 0)], trace = [Embeddings_create ''q'' 1536]\<rparr>
        \<lparr>trace := trace \<lparr>lru = [(''q'', 0)], trace = [Embeddings_create ''q'' 1536]\<rparr> @
           Match_pdf_documents [1/2, 1/4] 0 10 #
           take (Suc 2) (keyword_calls (keywords_of ''q''))\<rparr>)"
    by (metis is_Exception.simps(1))
  then have late: "retrieve_relevant_content_unified late_failure_backend 0 ''q'' initial =
     (Empty_string,
      \<lparr>lru = [(''q'', 0)],
       trace = [Embeddings_create ''q'' 1536, Match_pdf_documents [1/2, 1/4] 0 10,
                Ilike_pdf_documents content ''%q%'' 10, Ilike_pdf_documents title ''%q%'' 10,
                Ilike_pdf_documents content ''%q%'' 10]\<rparr>)"
    unfolding kq
    by (simp add: keyword_calls_Cons like_pattern_def numeral_2_eq_2)
  have e: "get_embedding pdf_down_backend ''q'' 0 initial =
     (Inr [1/2, 1/4], \<lparr>lru = [(''q'', 0)], trace = [Embeddings_create ''q'' 1536]\<rparr>)"
    by code_simp
  have m: "match_pdf_documents pdf_down_backend [Embeddings_create ''q'' 1536] [1/2, 1/4] =
     Inl BackendError"
    by (simp add: pdf_down_backend_def mock_backend_def)
  have e': "get_embedding web_down_backend ''q'' 0 initial =
     (Inr [1/2, 1/4], \<lparr>lru = [(''q'', 0)], trace = [Embeddings_create ''q'' 1536]\<rparr>)"
    by code_simp
  have p: "pdf_stage web_down_backend [1/2, 1/4] (keywords_of ''q'')
       \<lparr>lru = [(''q'', 0)], trace = [Embeddings_create ''q'' 1536]\<rparr> =
     (Inr [pdf_row 1 ''Risk classes'' (Val (9/10))],
      \<lparr>lru = [(''q'', 0)],
       trace = [Embeddings_create ''q'' 1536, Match_pdf_documents [1/2, 1/4] 0 10]\<rparr>)"
    by code_simp
  have w: "match_site_pages web_down_backend
       [Embeddings_create ''q'' 1536, Match_pdf_documents [1/2, 1/4] 0 10] [1/2, 1/4] =
     Inl BackendError"
    by (simp add: web_down_backend_def mock_backend_def)
  show ?thesis
    using e m e' p w late
      store_failure_ends_search [OF e, where e = BackendError]
      store_failure_ends_search [OF e', where e = BackendError
        and hyb = "[pdf_row 1 ''Risk classes'' (Val (9/10))]"
        and ?s2.0 = "\<lparr>lru = [(''q'', 0)],
       trace = [Embeddings_create ''q'' 1536, Match_pdf_documents [1/2, 1/4] 0 10]\<rparr>"]
    by simp
qed

text \<open>
  Claim C2, as containment per stage: with a PDF store that raises and a web store that
  has a page, the search returns the empty string and its log holds no web search; with a
  PDF store that has a row and a web store that raises, the PDF stage gathers the row
  and the search returns the empty string.
\<close>

theorem store_failure_ends_search_counterexample:
  "retrieve_relevant_content_unified pdf_down_backend 0 ''q'' initial =
     (Empty_string,
      \<lparr>lru = [(''q'', 0)],
       trace = [Embeddings_create ''q'' 1536, Match_pdf_documents [1/2, 1/4] 0 10]\<rparr>) \<and>
   match_site_pages pdf_down_backend
       [Embeddings_create ''q'' 1536, Match_pdf_documents [1/2, 1/4] 0 10] [1/2, 1/4] =
     Inr (Some [web_row 1 ''Usability'' (Val (19/20))]) \<and>
   fst (pdf_stage web_down_backend [1/2, 1/4] (keywords_of ''q'')
          (snd (get_embedding web_down_backend ''q'' 0 initial))) =
     Inr [pdf_row 1 ''Risk classes'' (Val (9/10))] \<and>
   fst (retrieve_relevant_content_unified web_down_backend 0 ''q'' initial) = Empty_string"
  by code_simp

section \<open>Exceptions and the empty string\<close>








section \<open>The order of the results\<close>

lemma retrieve_passages_sorted:
  "sorted_wrt (\<lambda>x y. similarity_key x \<ge> similarity_key y)
     (passages (fst (retrieve_relevant_content_unified b c q s)))"
proof (cases rule: merged_results_cases[of b c q s])
  case (raised e s')
  then show ?thesis by (simp add: retrieve_raised passages_except_Exception)
next
  case (returned rs s')
  then show ?thesis by (simp add: retrieve_passages sort_reverse_sorted)
qed

lemma sorted_wrt_null_below:
  assumes "sorted_wrt (\<lambda>x y. similarity_key x \<ge> similarity_key y) out"
    and "i < length out" and "j < length out"
    and "p_similarity (out ! i) = None" and "0 < similarity_key (out ! j)"
  shows "j < i"
proof (rule ccontr)
  assume "\<not> j < i"
  moreover have "i \<noteq> j"
    using assms(4,5) by (auto simp: similarity_key_def)
  ultimately have "i < j" by simp
  with assms(1,3) have "similarity_key (out ! i) \<ge> similarity_key (out ! j)"
    by (simp add: sorted_wrt_iff_nth_less)
  with assms(4,5) show False by (simp add: similarity_key_def)
qed

text \<open>
  Claim C4.  The returned passages are in descending order of the sort key, which is the
  similarity, and 0 for a passage without one; every merged passage is among them; a
  passage without similarity comes after every passage of positive similarity.  The
  three passages with similarities 0.9 (pdf), none (pdf keyword hit) and 0.95 (web) are
  put in the order web, pdf, pdf keyword hit.
\<close>

theorem results_sorted_by_similarity:
  "sorted_wrt (\<lambda>x y. similarity_key x \<ge> similarity_key y)
     (passages (fst (retrieve_relevant_content_unified b c q s))) \<and>
   (p_similarity x = None \<longrightarrow> similarity_key x = 0) \<and>
   (merged_results b c q s = (Inr rs, s') \<longrightarrow>
      mset (passages (fst (retrieve_relevant_content_unified b c q s))) = mset rs) \<and>
   (i < length (passages (fst (retrieve_relevant_content_unified b c q s))) \<and>
    j < length (passages (fst (retrieve_relevant_content_unified b c q s))) \<and>
    p_similarity (passages (fst (retrieve_relevant_content_unified b c q s)) ! i) = None \<and>
    0 < similarity_key (passages (fst (retrieve_relevant_content_unified b c q s)) ! j)
    \<longrightarrow> j < i) \<and>
   sort_reverse similarity_key three_passages =
     [three_passages ! 2, three_passages ! 0, three_passages ! 1]"
proof -
  have ex: "sort_reverse similarity_key three_passages =
     [three_passages ! 2, three_passages ! 0, three_passages ! 1]"
    by (simp add: three_passages_def sort_reverse_def similarity_key_def)
  have nul: "p_similarity x = None \<longrightarrow> similarity_key x = 0"
    by (simp add: similarity_key_def)
  have pres: "merged_results b c q s = (Inr rs, s') \<longrightarrow>
      mset (passages (fst (retrieve_relevant_content_unified b c q s))) = mset rs"
    by (simp add: retrieve_passages sort_reverse_mset)
  show ?thesis
    using sorted_wrt_null_below[OF retrieve_passages_sorted, of i b c q s j]
      retrieve_passages_sorted[of b c q s] ex nul pres
    by blast
qed

theorem results_sorted_by_similarity_witness:
  "\<not> isl (fst (merged_results ranking_backend 0 ''device class'' initial)) \<and>
   map (\<lambda>x. (p_type x, p_title x, p_similarity x))
     (passages (fst (retrieve_relevant_content_unified ranking_backend 0 ''device class'' initial))) =
     [(web, Some ''Usability'', Some (19/20)), (pdf, Some ''Risk classes'', Some (9/10)),
      (pdf, Some ''Guidance'', None)] \<and>
   mset (passages (fst (retrieve_relevant_content_unified ranking_backend 0 ''device class'' initial))) =
     mset (projr (fst (merged_results ranking_backend 0 ''device class'' initial))) \<and>
   sorted_wrt (\<lambda>x y. similarity_key x \<ge> similarity_key y)
     (passages (fst (retrieve_relevant_content_unified ranking_backend 0 ''device class'' initial)))"
proof -
  have i: "\<not> isl (fst (merged_results ranking_backend 0 ''device class'' initial))"
    by code_simp
  have o: "map (\<lambda>x. (p_type x, p_title x, p_similarity x))
     (passages (fst (retrieve_relevant_content_unified ranking_backend 0 ''device class'' initial))) =
     [(web, Some ''Usability'', Some (19/20)), (pdf, Some ''Risk classes'', Some (9/10)),
      (pdf, Some ''Guidance'', None)]"
    by code_simp
  from results_sorted_by_similarity [of ranking_backend 0 "''device class''" initial _
      "projr (fst (merged_results ranking_backend 0 ''device class'' initial))"
      "snd (merged_results ranking_backend 0 ''device class'' initial)"]
    returned_collapse [OF i] i o
  show ?thesis by simp
qed

section \<open>Deduplication\<close>

text \<open>
  Claim C5.  The passages are the formatted rows of \<open>hybrid_pdf_results\<close> followed
  by one passage per row of the web search.  Among the rows of
  \<open>hybrid_pdf_results\<close> every id occurs once, and the ids are those of the rows the PDF
  stage received (from the vector search, or from the substring queries when the vector
  search gave none).  The rows of the web search are not deduplicated, neither among
  themselves nor against the PDF rows.
\<close>

theorem pdf_passages_deduplicated:
  assumes "merged_results b c q s = (Inr rs, s')"
  shows "\<exists>emb s1 hyb s2 web_data web_passages.
      get_embedding b q c s = (Inr emb, s1) \<and>
      pdf_stage b emb (keywords_of q) s1 = (Inr hyb, s2) \<and>
      match_site_pages b (trace s2) emb = Inr (Some web_data) \<and>
      map format_web web_data = map Inr web_passages \<and>
      mset (passages (fst (retrieve_relevant_content_unified b c q s))) =
        mset (map format_pdf hyb) + mset web_passages \<and>
      distinct (map (\<lambda>d. get (pdf_id d)) hyb) \<and>
      set (map (\<lambda>d. get (pdf_id d)) hyb) =
        set (map (\<lambda>d. get (pdf_id d)) (pdf_rows b emb (keywords_of q) s1))"
proof -
  from merged_results_shape[OF assms] obtain emb s1 hyb s2 web_data web_passages where
    e: "get_embedding b q c s = (Inr emb, s1)"
    and p: "pdf_stage b emb (keywords_of q) s1 = (Inr hyb, s2)"
    and w: "match_site_pages b (trace s2) emb = Inr (Some web_data)"
    and f: "map format_web web_data = map Inr web_passages"
    and rs: "rs = map format_pdf hyb @ web_passages" by blast
  have m: "mset (passages (fst (retrieve_relevant_content_unified b c q s))) =
        mset (map format_pdf hyb) + mset web_passages"
    by (simp add: retrieve_passages[OF assms] sort_reverse_mset rs)
  have h: "hyb = snd (add_unique (pdf_rows b emb (keywords_of q) s1) ({}, []))"
    by (rule pdf_stage_result[OF p])
  have d: "distinct (map (\<lambda>d. get (pdf_id d)) hyb) \<and>
      set (map (\<lambda>d. get (pdf_id d)) hyb) =
        set (map (\<lambda>d. get (pdf_id d)) (pdf_rows b emb (keywords_of q) s1))"
    unfolding h by (rule first_seen_distinct)
  from e p w f m d show ?thesis by blast
qed

lemma keywords_of_Class_II: "keywords_of ''Class II'' =
     [''class ii'', ''class'', ''ii'', ''class'', ''classification'', ''device'', ''medical'']"
  by code_simp

lemma fallback_rows_ids: "map (\<lambda>d. get (pdf_id d))
     (pdf_rows fallback_backend [1/2, 1/4] (keywords_of ''Class II'')
        (snd (get_embedding fallback_backend ''Class II'' 0 initial))) =
     concat (map (\<lambda>kw. [Some 5, Some 5, Some 6]) (keywords_of ''Class II''))"
  unfolding keywords_of_Class_II fallback_backend_def
  by (simp add: pdf_rows_def rpc_match_pdf_documents_def keyword_rows_mock mock_backend_sel
      pdf_row_def del: keyword_rows.simps)

lemma fallback_pdf_stage: "pdf_stage fallback_backend [1/2, 1/4] (keywords_of ''Class II'') s =
     (Inr [pdf_row 5 ''Device classes'' Missing, pdf_row 6 ''Classification rules'' Missing],
      s\<lparr>trace := trace s @ [Match_pdf_documents [1/2, 1/4] 0 10] @
             keyword_calls (keywords_of ''Class II'')\<rparr>)"
  unfolding fallback_backend_def pdf_stage_def rpc_match_pdf_documents_def
  by (simp add: mock_backend_sel keyword_search_mock [where ?r1.0 = "Some [pdf_row 5 ''Device classes'' Missing]"
        and ?r2.0 = "Some [pdf_row 5 ''Device classes'' Missing,
                          pdf_row 6 ''Classification rules'' Missing]"] keywords_of_Class_II pdf_row_def
      del: keyword_search.simps)

lemma fallback_merged: "fst (merged_results fallback_backend 0 ''Class II'' initial) =
   Inr [format_pdf (pdf_row 5 ''Device classes'' Missing),
         format_pdf (pdf_row 6 ''Classification rules'' Missing)]"
proof -
  have e: "get_embedding fallback_backend ''Class II'' 0 initial =
     (Inr [1/2, 1/4], \<lparr>lru = [(''Class II'', 0)], trace = [Embeddings_create ''Class II'' 1536]\<rparr>)"
    by code_simp
  show ?thesis
    unfolding merged_results_def e
    by (simp add: fallback_pdf_stage rpc_match_site_pages_def)
       (simp add: fallback_backend_def mock_backend_sel)
qed

theorem pdf_passages_deduplicated_witness:
  "\<not> isl (fst (merged_results fallback_backend 0 ''Class II'' initial)) \<and>
   map (\<lambda>d. get (pdf_id d))
     (pdf_rows fallback_backend [1/2, 1/4] (keywords_of ''Class II'')
        (snd (get_embedding fallback_backend ''Class II'' 0 initial))) =
     concat (map (\<lambda>kw. [Some 5, Some 5, Some 6]) (keywords_of ''Class II'')) \<and>
   map p_title (passages (fst (retrieve_relevant_content_unified fallback_backend 0 ''Class II'' initial))) =
     [Some ''Device classes'', Some ''Classification rules''] \<and>
   (\<exists>emb s1 hyb s2 web_data web_passages.
      get_embedding fallback_backend ''Class II'' 0 initial = (Inr emb, s1) \<and>
      pdf_stage fallback_backend emb (keywords_of ''Class II'') s1 = (Inr hyb, s2) \<and>
      match_site_pages fallback_backend (trace s2) emb = Inr (Some web_data) \<and>
      map format_web web_data = map Inr web_passages \<and>
      mset (passages (fst (retrieve_relevant_content_unified fallback_backend 0 ''Class II'' initial))) =
        mset (map format_pdf hyb) + mset web_passages \<and>
      distinct (map (\<lambda>d. get (pdf_id d)) hyb) \<and>
      set (map (\<lambda>d. get (pdf_id d)) hyb) =
        set (map (\<lambda>d. get (pdf_id d)) (pdf_rows fallback_backend emb (keywords_of ''Class II'') s1)))"
proof -
  have i: "\<not> isl (fst (merged_results fallback_backend 0 ''Class II'' initial))"
    by (simp add: fallback_merged)
  have o: "map p_title (passages (fst (retrieve_relevant_content_unified fallback_backend 0 ''Class II'' initial))) =
     [Some ''Device classes'', Some ''Classification rules'']"
    unfolding retrieve_passages [OF returned_collapse [OF i]] fallback_merged
    by (simp add: sort_reverse_def format_pdf_def pdf_row_def similarity_key_def)
  from pdf_passages_deduplicated [OF returned_collapse [OF i]] i fallback_rows_ids o
  show ?thesis by blast
qed

text \<open>
  Claim C5, for ids across the stores: the PDF store and the web store each return a row
  with id 7, and the search returns two passages, one of each type.
\<close>

theorem pdf_passages_deduplicated_counterexample:
  "map (\<lambda>d. get (pdf_id d))
     (rows (match_pdf_documents same_id_backend [Embeddings_create ''q'' 1536] [1/2, 1/4])) =
     [Some 7] \<and>
   map (\<lambda>d. get (web_id d))
     (rows (match_site_pages same_id_backend
        [Embeddings_create ''q'' 1536, Match_pdf_documents [1/2, 1/4] 0 10] [1/2, 1/4])) =
     [Some 7] \<and>
   map (\<lambda>x. (p_type x, p_title x))
     (passages (fst (retrieve_relevant_content_unified same_id_backend 0 ''q'' initial))) =
     [(web, Some ''Usability''), (pdf, Some ''Risk classes'')]"
  by code_simp

section \<open>Stability of the final sort\<close>

text \<open>
  Claim C10.  Among the returned passages, those of one sort key are in the order of the
  merge: the PDF passages of that key, in the order of \<open>hybrid_pdf_results\<close>, then the
  web passages of that key, in the order of the web rows; and \<open>hybrid_pdf_results\<close>
  keeps the order in which the PDF stage received its rows (vector search, then
  substring queries in the order of the calls).
\<close>

theorem sort_keeps_merge_order:
  assumes "merged_results b c q s = (Inr rs, s')"
  shows "\<exists>emb s1 hyb s2 web_data web_passages.
      get_embedding b q c s = (Inr emb, s1) \<and>
      pdf_stage b emb (keywords_of q) s1 = (Inr hyb, s2) \<and>
      match_site_pages b (trace s2) emb = Inr (Some web_data) \<and>
      map format_web web_data = map Inr web_passages \<and>
      subseq hyb (pdf_rows b emb (keywords_of q) s1) \<and>
      (\<forall>k. filter (\<lambda>x. similarity_key x = k)
              (passages (fst (retrieve_relevant_content_unified b c q s))) =
            filter (\<lambda>x. similarity_key x = k) (map format_pdf hyb) @
            filter (\<lambda>x. similarity_key x = k) web_passages)"
proof -
  from merged_results_shape[OF assms] obtain emb s1 hyb s2 web_data web_passages where
    e: "get_embedding b q c s = (Inr emb, s1)"
    and p: "pdf_stage b emb (keywords_of q) s1 = (Inr hyb, s2)"
    and w: "match_site_pages b (trace s2) emb = Inr (Some web_data)"
    and f: "map format_web web_data = map Inr web_passages"
    and rs: "rs = map format_pdf hyb @ web_passages" by blast
  have h: "subseq hyb (pdf_rows b emb (keywords_of q) s1)"
    unfolding pdf_stage_result[OF p] by (rule first_seen_subseq)
  have k: "\<forall>k. filter (\<lambda>x. similarity_key x = k)
              (passages (fst (retrieve_relevant_content_unified b c q s))) =
            filter (\<lambda>x. similarity_key x = k) (map format_pdf hyb) @
            filter (\<lambda>x. similarity_key x = k) web_passages"
    by (simp add: retrieve_passages[OF assms] sort_reverse_stable rs)
  from e p w f h k show ?thesis by blast
qed

theorem sort_keeps_merge_order_witness:
  "\<not> isl (fst (merged_results tie_backend 0 ''q'' initial)) \<and>
   map (\<lambda>x. (p_type x, p_title x, similarity_key x))
     (passages (fst (retrieve_relevant_content_unified tie_backend 0 ''q'' initial))) =
     [(pdf, Some ''P1'', 1/2), (web, Some ''W1'', 1/2), (pdf, Some ''P2'', 0), (web, Some ''W2'', 0)] \<and>
   (\<exists>emb s1 hyb s2 web_data web_passages.
      get_embedding tie_backend ''q'' 0 initial = (Inr emb, s1) \<and>
      pdf_stage tie_backend emb (keywords_of ''q'') s1 = (Inr hyb, s2) \<and>
      match_site_pages tie_backend (trace s2) emb = Inr (Some web_data) \<and>
      map format_web web_data = map Inr web_passages \<and>
      subseq hyb (pdf_rows tie_backend emb (keywords_of ''q'') s1) \<and>
      (\<forall>k. filter (\<lambda>x. similarity_key x = k)
              (passages (fst (retrieve_relevant_content_unified tie_backend 0 ''q'' initial))) =
            filter (\<lambda>x. similarity_key x = k) (map format_pdf hyb) @
            filter (\<lambda>x. similarity_key x = k) web_passages))"
proof -
  have i: "\<not> isl (fst (merged_results tie_backend 0 ''q'' initial))"
    by code_simp
  have o: "map (\<lambda>x. (p_type x, p_title x, similarity_key x))
     (passages (fst (retrieve_relevant_content_unified tie_backend 0 ''q'' initial))) =
     [(pdf, Some ''P1'', 1/2), (web, Some ''W1'', 1/2), (pdf, Some ''P2'', 0), (web, Some ''W2'', 0)]"
    by code_simp
  from sort_keeps_merge_order [OF returned_collapse [OF i]] i o
  show ?thesis by blast
qed

end
